theory Spec2Isabelle
  imports Main "HOL-Library.Multiset" "HOL-Library.AList" "HOL-Library.Word"
begin

section \<open>Data model of the domain package\<close>

text \<open>
  Go strings are byte sequences: \<open>string\<close>.  \<open>Role\<close>, \<open>Phase\<close> and
  \<open>ConnectionStatus\<close> are declared in Go as \<open>type T string\<close> with named constants, so
  they stay strings here and the constants are the literals of the source.  The empty string
  is the zero value (a player without a role).  A Go \<open>int\<close> is modelled as an unbounded
  \<open>int\<close>: the only arithmetic is \<open>len(..) + 1\<close> and \<open>idx++\<close> on slices held in
  memory, which cannot reach \<open>2^63\<close>.  \<open>time.Time\<close> is an abstract instant; every call
  of \<open>time.Now()\<close> is a parameter \<open>now\<close> of the operation that makes it.
\<close>

type_synonym Role = string
type_synonym Phase = string
type_synonym ConnectionStatus = string
type_synonym Time = nat

definition RoleImposter :: Role where "RoleImposter = ''IMPOSTER''"
definition RoleVilek :: Role where "RoleVilek = ''VILEK''"

definition PhaseLobby :: Phase where "PhaseLobby = ''LOBBY''"
definition PhaseRoleAssignment :: Phase where "PhaseRoleAssignment = ''ROLE_ASSIGNMENT''"
definition PhaseSubmission :: Phase where "PhaseSubmission = ''SUBMISSION''"
definition PhaseVoting :: Phase where "PhaseVoting = ''VOTING''"
definition PhaseResults :: Phase where "PhaseResults = ''RESULTS''"

definition StatusConnected :: ConnectionStatus where "StatusConnected = ''CONNECTED''"
definition StatusDisconnected :: ConnectionStatus where "StatusDisconnected = ''DISCONNECTED''"

text \<open>The domain errors of errors.go, and the one error the hub builds with \<open>fmt.Errorf\<close>.\<close>

datatype error =
    ErrGameNotFound
  | ErrGameFull
  | ErrGameAlreadyStarted
  | ErrNotEnoughPlayers
  | ErrNotYourTurn
  | ErrAlreadySubmitted
  | ErrAlreadyVoted
  | ErrInvalidPhase
  | ErrPlayerNotFound
  | ErrNotHost
  | ErrCannotVoteSelf
  | ErrInvalidTransition
  | ErrEmptyWord
  | ErrInvalidTargetID
  | ErrNoUniqueRoomCode

text \<open>
  A Go map with string keys is an association list; \<open>map_of\<close> reads it,
  \<open>AList.update\<close> stores, \<open>AList.delete\<close> deletes, and its length is \<open>len\<close> as
  long as the keys are distinct, which the three operations preserve.  The order of the list
  carries no meaning.  The order in which \<open>range\<close> visits the keys is chosen by the runtime
  at every loop: each loop whose result depends on it takes that order as a parameter, and
  \<open>range_map\<close> lists the entries in that order.
\<close>

type_synonym 'v gomap = "(string \<times> 'v) list"

definition keys :: "'v gomap \<Rightarrow> string list" where
  "keys m = map fst m"

definition range_map :: "'v gomap \<Rightarrow> string list \<Rightarrow> (string \<times> 'v) list" where
  "range_map m order = List.map_filter (\<lambda>k. map_option (Pair k) (map_of m k)) order"

definition iteration_order :: "'v gomap \<Rightarrow> string list \<Rightarrow> bool" where
  "iteration_order m order \<longleftrightarrow> distinct order \<and> set order = set (keys m)"

text \<open>A loop that updates every value of the map in place, each entry on its own.\<close>

definition for_each_value :: "(string \<Rightarrow> 'v \<Rightarrow> 'v) \<Rightarrow> 'v gomap \<Rightarrow> 'v gomap" where
  "for_each_value f m = map (\<lambda>(k, v). (k, f k v)) m"

text \<open>Indexing a slice with a Go \<open>int\<close>: out of range is a runtime panic, \<open>None\<close>.\<close>

definition index :: "'a list \<Rightarrow> int \<Rightarrow> 'a option" where
  "index xs i = (if 0 \<le> i \<and> i < int (length xs) then Some (xs ! nat i) else None)"

subsection \<open>Phase\<close>

definition validTransitions :: "(Phase \<times> Phase list) list" where
  "validTransitions =
     [(PhaseLobby, [PhaseRoleAssignment]),
      (PhaseRoleAssignment, [PhaseSubmission]),
      (PhaseSubmission, [PhaseVoting]),
      (PhaseVoting, [PhaseResults]),
      (PhaseResults, [PhaseRoleAssignment, PhaseLobby])]"

definition CanTransitionTo :: "Phase \<Rightarrow> Phase \<Rightarrow> bool" where
  "CanTransitionTo p target =
     (case map_of validTransitions p of
        None \<Rightarrow> False
      | Some allowed \<Rightarrow> target \<in> set allowed)"

subsection \<open>Player\<close>

record Player =
  ID :: string
  Nickname :: string
  Role :: Role
  HasVoted :: bool
  HasSubmitted :: bool
  Status :: ConnectionStatus
  JoinedAt :: Time

definition NewPlayer :: "string \<Rightarrow> string \<Rightarrow> Time \<Rightarrow> Player" where
  "NewPlayer pid nickname now =
     \<lparr>ID = pid, Nickname = nickname, Role = '''', HasVoted = False, HasSubmitted = False,
      Status = StatusConnected, JoinedAt = now\<rparr>"

definition ResetForNewRound :: "Player \<Rightarrow> Player" where
  "ResetForNewRound p = p\<lparr>Role := '''', HasVoted := False, HasSubmitted := False\<rparr>"

record PlayerInfo =
  info_ID :: string
  info_Nickname :: string
  info_HasVoted :: bool
  info_HasSubmitted :: bool
  info_Status :: ConnectionStatus

definition ToInfo :: "Player \<Rightarrow> PlayerInfo" where
  "ToInfo p =
     \<lparr>info_ID = ID p, info_Nickname = Nickname p, info_HasVoted = HasVoted p,
      info_HasSubmitted = HasSubmitted p, info_Status = Status p\<rparr>"

subsection \<open>Submission, Vote, VoteResult\<close>

record Submission =
  sub_PlayerID :: string
  sub_Nickname :: string
  sub_Word :: string
  sub_Order :: int
  sub_Timestamp :: Time

definition NewSubmission :: "string \<Rightarrow> string \<Rightarrow> string \<Rightarrow> int \<Rightarrow> Time \<Rightarrow> Submission" where
  "NewSubmission playerID nickname word ord now =
     \<lparr>sub_PlayerID = playerID, sub_Nickname = nickname, sub_Word = word, sub_Order = ord,
      sub_Timestamp = now\<rparr>"

record Vote =
  VoterID :: string
  TargetID :: string
  vote_Timestamp :: Time

definition NewVote :: "string \<Rightarrow> string \<Rightarrow> Time \<Rightarrow> Vote" where
  "NewVote voterID targetID now =
     \<lparr>VoterID = voterID, TargetID = targetID, vote_Timestamp = now\<rparr>"

record VoteResult =
  res_PlayerID :: string
  res_Nickname :: string
  VoteCount :: int
  VotedBy :: "string list"
  IsImposter :: bool

subsection \<open>The randomness of math/rand\<close>

text \<open>
  \<open>rand.Intn(n)\<close> panics when \<open>n \<le> 0\<close> and returns some value of \<open>[0, n)\<close>
  otherwise: the value drawn is a parameter \<open>r\<close>, reduced into the range.
  \<open>rand.Shuffle(n, swap)\<close> is the Fisher-Yates loop of the standard library,
  \<open>for i := n - 1; i > 0; i-- { j := Intn(i + 1); swap(i, j) }\<close>; \<open>rnd i\<close> is the
  value drawn at step \<open>i\<close>.
\<close>

definition Intn :: "nat \<Rightarrow> int \<Rightarrow> int option" where
  "Intn r n = (if n \<le> 0 then None else Some (int r mod n))"

definition swap_at :: "nat \<Rightarrow> nat \<Rightarrow> 'a list \<Rightarrow> 'a list" where
  "swap_at i j xs = xs[i := xs ! j, j := xs ! i]"

fun Shuffle_from :: "nat \<Rightarrow> (nat \<Rightarrow> nat) \<Rightarrow> 'a list \<Rightarrow> 'a list" where
  "Shuffle_from 0 rnd xs = xs"
| "Shuffle_from (Suc i) rnd xs =
     Shuffle_from i rnd (swap_at (Suc i) (rnd (Suc i) mod (Suc i + 1)) xs)"

definition Shuffle :: "nat \<Rightarrow> (nat \<Rightarrow> nat) \<Rightarrow> 'a list \<Rightarrow> 'a list" where
  "Shuffle n rnd xs = Shuffle_from (n - 1) rnd xs"

subsection \<open>Round\<close>

record Round =
  Number :: int
  SecretWord :: string
  ImposterID :: string
  Submissions :: "Submission list"
  Votes :: "Vote list"
  CurrentPlayerIdx :: int
  PlayerOrder :: "string list"
  Winner :: Role
  StartedAt :: Time
  EndedAt :: Time

text \<open>
  \<open>NewRound\<close>: \<open>shuf\<close> and \<open>pick\<close> are the values drawn by \<open>rand.Shuffle\<close> and
  \<open>rand.Intn\<close>.  \<open>None\<close> is the panic of \<open>rand.Intn(0)\<close> on an empty list of ids.
  \<open>Winner\<close> and \<open>EndedAt\<close> keep their zero values.
\<close>

definition NewRound ::
  "int \<Rightarrow> string \<Rightarrow> string list \<Rightarrow> (nat \<Rightarrow> nat) \<Rightarrow> nat \<Rightarrow> Time \<Rightarrow> Round option" where
  "NewRound number secretWord playerIDs shuf pick now =
     (let order = Shuffle (length playerIDs) shuf playerIDs in
      case Intn pick (int (length playerIDs)) of
        None \<Rightarrow> None
      | Some imposterIdx \<Rightarrow>
          (case index playerIDs imposterIdx of
             None \<Rightarrow> None
           | Some imposterID \<Rightarrow>
               Some \<lparr>Number = number, SecretWord = secretWord, ImposterID = imposterID,
                     Submissions = [], Votes = [], CurrentPlayerIdx = 0, PlayerOrder = order,
                     Winner = '''', StartedAt = now, EndedAt = 0\<rparr>))"

text \<open>\<open>None\<close> is the index panic of a negative \<open>CurrentPlayerIdx\<close>.\<close>

definition GetCurrentPlayerID :: "Round \<Rightarrow> string option" where
  "GetCurrentPlayerID r =
     (if CurrentPlayerIdx r \<ge> int (length (PlayerOrder r)) then Some ''''
      else index (PlayerOrder r) (CurrentPlayerIdx r))"

definition IsPlayerTurn :: "Round \<Rightarrow> string \<Rightarrow> bool option" where
  "IsPlayerTurn r playerID = map_option (\<lambda>c. c = playerID) (GetCurrentPlayerID r)"

definition AddSubmission ::
  "Round \<Rightarrow> string \<Rightarrow> string \<Rightarrow> string \<Rightarrow> Time \<Rightarrow> (error option \<times> Round) option" where
  "AddSubmission r playerID nickname word now =
     (case IsPlayerTurn r playerID of
        None \<Rightarrow> None
      | Some False \<Rightarrow> Some (Some ErrNotYourTurn, r)
      | Some True \<Rightarrow>
          (let submission =
                 NewSubmission playerID nickname word (int (length (Submissions r)) + 1) now
           in Some (None, r\<lparr>Submissions := Submissions r @ [submission],
                               CurrentPlayerIdx := CurrentPlayerIdx r + 1\<rparr>)))"

definition AllSubmitted :: "Round \<Rightarrow> bool" where
  "AllSubmitted r \<longleftrightarrow> CurrentPlayerIdx r \<ge> int (length (PlayerOrder r))"

definition HasPlayerVoted :: "Round \<Rightarrow> string \<Rightarrow> bool" where
  "HasPlayerVoted r playerID \<longleftrightarrow> playerID \<in> set (map VoterID (Votes r))"

definition AddVote :: "Round \<Rightarrow> string \<Rightarrow> string \<Rightarrow> Time \<Rightarrow> error option \<times> Round" where
  "AddVote r voterID targetID now =
     (if voterID \<in> set (map VoterID (Votes r)) then (Some ErrAlreadyVoted, r)
      else (None, r\<lparr>Votes := Votes r @ [NewVote voterID targetID now]\<rparr>))"

definition AllVoted :: "Round \<Rightarrow> int \<Rightarrow> bool" where
  "AllVoted r totalPlayers \<longleftrightarrow> int (length (Votes r)) \<ge> totalPlayers"

definition GetVotedCount :: "Round \<Rightarrow> int" where
  "GetVotedCount r = int (length (Votes r))"

text \<open>
  \<open>CalculateResults\<close>.  The two local maps are read with Go's zero default, so they are
  total functions starting at \<open>0\<close> and \<open>nil\<close>.  The first loop runs over the votes in
  slice order, the second over the player map in the order \<open>order\<close> chosen by the runtime.
  The method writes \<open>Winner\<close> and \<open>EndedAt\<close> of its receiver: the round is returned.
\<close>

definition tally_vote ::
  "Player gomap \<Rightarrow> (string \<Rightarrow> int) \<times> (string \<Rightarrow> string list) \<Rightarrow> Vote
     \<Rightarrow> (string \<Rightarrow> int) \<times> (string \<Rightarrow> string list)" where
  "tally_vote players acc vote =
     (let voteCounts = fst acc; voterNames = snd acc;
          voterNickname = (case map_of players (VoterID vote) of
                             Some voter \<Rightarrow> Nickname voter
                           | None \<Rightarrow> '''')
      in (voteCounts(TargetID vote := voteCounts (TargetID vote) + 1),
          voterNames(TargetID vote := voterNames (TargetID vote) @ [voterNickname])))"

definition tally ::
  "Player gomap \<Rightarrow> Vote list \<Rightarrow> (string \<Rightarrow> int) \<times> (string \<Rightarrow> string list)" where
  "tally players votes = foldl (tally_vote players) (\<lambda>_. 0, \<lambda>_. []) votes"

definition scan_player ::
  "Round \<Rightarrow> (string \<Rightarrow> int) \<Rightarrow> (string \<Rightarrow> string list)
     \<Rightarrow> VoteResult list \<times> int \<times> string \<Rightarrow> string \<times> Player
     \<Rightarrow> VoteResult list \<times> int \<times> string" where
  "scan_player r voteCounts voterNames acc entry =
     (let results = fst acc; maxVotes = fst (snd acc); maxVotedPlayerID = snd (snd acc);
          playerID = fst entry; player = snd entry;
          count = voteCounts playerID;
          result = \<lparr>res_PlayerID = playerID, res_Nickname = Nickname player,
                    VoteCount = count, VotedBy = voterNames playerID,
                    IsImposter = (playerID = ImposterID r)\<rparr>
      in if count > maxVotes then (results @ [result], count, playerID)
         else (results @ [result], maxVotes, maxVotedPlayerID))"

definition CalculateResults ::
  "Round \<Rightarrow> Player gomap \<Rightarrow> string list \<Rightarrow> Time \<Rightarrow> VoteResult list \<times> Role \<times> Round" where
  "CalculateResults r players order now =
     (let t = tally players (Votes r);
          s = foldl (scan_player r (fst t) (snd t)) ([], 0, '''') (range_map players order);
          maxVotedPlayerID = snd (snd s);
          winner = (if maxVotedPlayerID = ImposterID r then RoleVilek else RoleImposter)
      in (fst s, winner, r\<lparr>Winner := winner, EndedAt := now\<rparr>))"

subsection \<open>strings.TrimSpace\<close>

text \<open>
  \<open>strings.TrimSpace\<close> of the standard library removes every leading and every trailing
  code point for which \<open>unicode.IsSpace\<close> holds.  On the bytes of a Go string these are
  the UTF-8 encodings listed in \<open>spaceRunes\<close>: tab, line feed, vertical tab, form feed,
  carriage return, space, U+0085, U+00A0, U+1680, U+2000 to U+200A, U+2028, U+2029, U+202F,
  U+205F and U+3000.
\<close>

definition spaceRunes :: "string list" where
  "spaceRunes =
     [[CHR 0x09], [CHR 0x0A], [CHR 0x0B], [CHR 0x0C], [CHR 0x0D], [CHR 0x20],
      [CHR 0xC2, CHR 0x85], [CHR 0xC2, CHR 0xA0],
      [CHR 0xE1, CHR 0x9A, CHR 0x80],
      [CHR 0xE2, CHR 0x80, CHR 0x80], [CHR 0xE2, CHR 0x80, CHR 0x81],
      [CHR 0xE2, CHR 0x80, CHR 0x82], [CHR 0xE2, CHR 0x80, CHR 0x83],
      [CHR 0xE2, CHR 0x80, CHR 0x84], [CHR 0xE2, CHR 0x80, CHR 0x85],
      [CHR 0xE2, CHR 0x80, CHR 0x86], [CHR 0xE2, CHR 0x80, CHR 0x87],
      [CHR 0xE2, CHR 0x80, CHR 0x88], [CHR 0xE2, CHR 0x80, CHR 0x89],
      [CHR 0xE2, CHR 0x80, CHR 0x8A],
      [CHR 0xE2, CHR 0x80, CHR 0xA8], [CHR 0xE2, CHR 0x80, CHR 0xA9],
      [CHR 0xE2, CHR 0x80, CHR 0xAF], [CHR 0xE2, CHR 0x81, CHR 0x9F],
      [CHR 0xE3, CHR 0x80, CHR 0x80]]"

definition leading_space :: "string \<Rightarrow> string option" where
  "leading_space s =
     (case filter (\<lambda>e. take (length e) s = e) spaceRunes of
        [] \<Rightarrow> None
      | e # _ \<Rightarrow> Some (drop (length e) s))"

definition trailing_space :: "string \<Rightarrow> string option" where
  "trailing_space s =
     (case filter (\<lambda>e. drop (length s - length e) s = e) spaceRunes of
        [] \<Rightarrow> None
      | e # _ \<Rightarrow> Some (take (length s - length e) s))"

lemma spaceRunes_nonempty: "e \<in> set spaceRunes \<Longrightarrow> e \<noteq> []"
  by (auto simp: spaceRunes_def)

lemma leading_space_shorter:
  assumes "leading_space s = Some rest"
  shows "length rest < length s"
proof -
  from assms obtain e es where f: "filter (\<lambda>e. take (length e) s = e) spaceRunes = e # es"
    and r: "rest = drop (length e) s"
    by (auto simp: leading_space_def split: list.splits)
  from f have "e \<in> set (filter (\<lambda>e. take (length e) s = e) spaceRunes)" by simp
  then have m: "e \<in> set spaceRunes" and t: "take (length e) s = e" by auto
  from m have "e \<noteq> []" by (rule spaceRunes_nonempty)
  moreover have "length e \<le> length s"
  proof -
    have "length e = length (take (length e) s)" using t by simp
    also have "\<dots> \<le> length s" by simp
    finally show ?thesis .
  qed
  ultimately show ?thesis using r by (cases e) auto
qed

lemma trailing_space_shorter:
  assumes "trailing_space s = Some rest"
  shows "length rest < length s"
proof -
  from assms obtain e es
    where f: "filter (\<lambda>e. drop (length s - length e) s = e) spaceRunes = e # es"
    and r: "rest = take (length s - length e) s"
    by (auto simp: trailing_space_def split: list.splits)
  from f have "e \<in> set (filter (\<lambda>e. drop (length s - length e) s = e) spaceRunes)" by simp
  then have m: "e \<in> set spaceRunes" and t: "drop (length s - length e) s = e" by auto
  from m have ne: "e \<noteq> []" by (rule spaceRunes_nonempty)
  with t have "s \<noteq> []" by auto
  with ne show ?thesis using r by (cases e) auto
qed

function TrimLeft :: "string \<Rightarrow> string" where
  "TrimLeft s = (case leading_space s of None \<Rightarrow> s | Some rest \<Rightarrow> TrimLeft rest)"
  by pat_completeness auto
termination
  by (relation "measure length") (auto dest: leading_space_shorter)

function TrimRight :: "string \<Rightarrow> string" where
  "TrimRight s = (case trailing_space s of None \<Rightarrow> s | Some rest \<Rightarrow> TrimRight rest)"
  by pat_completeness auto
termination
  by (relation "measure length") (auto dest: trailing_space_shorter)

declare TrimLeft.simps [simp del] TrimRight.simps [simp del]

definition TrimSpace :: "string \<Rightarrow> string" where
  "TrimSpace s = TrimRight (TrimLeft s)"

subsection \<open>Game\<close>

record GameSettings =
  MinPlayers :: int
  MaxPlayers :: int
  VotingDuration :: int
  RoleRevealTime :: int

definition DefaultGameSettings :: GameSettings where
  "DefaultGameSettings =
     \<lparr>MinPlayers = 4, MaxPlayers = 10, VotingDuration = 20 * 1000000000,
      RoleRevealTime = 5 * 1000000000\<rparr>"

text \<open>
  \<open>Players\<close> maps a player id to a \<open>*Player\<close>; \<open>AddPlayer\<close> is the only code that
  stores into the map and it allocates the player it stores, so no two keys share a player
  and a write through the pointer is an update of that key's entry.  \<open>CurrentRound\<close> is a
  pointer that may be nil.  \<open>RoundHistory\<close> holds the rounds appended by \<open>EndRound\<close>;
  the domain code reads only its length, and the session reads the secret words.
\<close>

record Game =
  GameID :: string
  HostID :: string
  Players :: "Player gomap"
  CurrentRound :: "Round option"
  RoundHistory :: "Round list"
  Phase :: Phase
  Settings :: GameSettings
  CreatedAt :: Time

definition NewGame :: "string \<Rightarrow> Time \<Rightarrow> Game" where
  "NewGame gid now =
     \<lparr>GameID = gid, HostID = '''', Players = [], CurrentRound = None, RoundHistory = [],
      Phase = PhaseLobby, Settings = DefaultGameSettings, CreatedAt = now\<rparr>"

text \<open>
  A method that returns an error and may have written to its receiver returns the pair of
  the error (\<open>None\<close> is Go's \<open>nil\<close>) and the game as the call leaves it.
\<close>

definition AddPlayer :: "Game \<Rightarrow> string \<Rightarrow> string \<Rightarrow> Time \<Rightarrow> (error + Player) \<times> Game" where
  "AddPlayer g playerID nickname now =
     (if Phase g \<noteq> PhaseLobby then (Inl ErrGameAlreadyStarted, g)
      else if int (length (Players g)) \<ge> MaxPlayers (Settings g) then (Inl ErrGameFull, g)
      else
        (let player = NewPlayer playerID nickname now;
             g1 = g\<lparr>Players := AList.update playerID player (Players g)\<rparr>;
             g2 = (if HostID g1 = '''' then g1\<lparr>HostID := playerID\<rparr> else g1)
         in (Inr player, g2)))"

text \<open>
  \<open>RemovePlayer\<close>: \<open>order\<close> is the order in which the runtime ranges over the map after
  the deletion; the loop takes its first key and breaks.
\<close>

definition RemovePlayer :: "Game \<Rightarrow> string \<Rightarrow> string list \<Rightarrow> error option \<times> Game" where
  "RemovePlayer g playerID order =
     (case map_of (Players g) playerID of
        None \<Rightarrow> (Some ErrPlayerNotFound, g)
      | Some _ \<Rightarrow>
          (let g1 = g\<lparr>Players := AList.delete playerID (Players g)\<rparr>;
               g2 = (if HostID g1 = playerID \<and> int (length (Players g1)) > 0
                     then (case range_map (Players g1) order of
                             [] \<Rightarrow> g1
                           | (k, _) # _ \<Rightarrow> g1\<lparr>HostID := k\<rparr>)
                     else g1)
           in (None, g2)))"

definition GetPlayer :: "Game \<Rightarrow> string \<Rightarrow> error + Player" where
  "GetPlayer g playerID =
     (case map_of (Players g) playerID of
        None \<Rightarrow> Inl ErrPlayerNotFound
      | Some player \<Rightarrow> Inr player)"

definition GetPlayerIDs :: "Game \<Rightarrow> string list \<Rightarrow> string list" where
  "GetPlayerIDs g order = map fst (range_map (Players g) order)"

definition CanStart :: "Game \<Rightarrow> bool" where
  "CanStart g \<longleftrightarrow> Phase g = PhaseLobby \<and> int (length (Players g)) \<ge> MinPlayers (Settings g)"

text \<open>
  \<open>StartRound\<close>: \<open>order\<close> is the iteration order of \<open>GetPlayerIDs\<close>, \<open>shuf\<close> and
  \<open>pick\<close> are the random values of \<open>NewRound\<close>.  \<open>None\<close> is the panic of
  \<open>NewRound\<close> on an empty player map.
\<close>

definition StartRound ::
  "Game \<Rightarrow> string \<Rightarrow> string list \<Rightarrow> (nat \<Rightarrow> nat) \<Rightarrow> nat \<Rightarrow> Time
     \<Rightarrow> (error option \<times> Game) option" where
  "StartRound g secretWord order shuf pick now =
     (if Phase g \<noteq> PhaseLobby \<and> Phase g \<noteq> PhaseResults then Some (Some ErrInvalidPhase, g)
      else if int (length (Players g)) < MinPlayers (Settings g)
        then Some (Some ErrNotEnoughPlayers, g)
      else
        (let g1 = g\<lparr>Players := for_each_value (\<lambda>_. ResetForNewRound) (Players g)\<rparr>;
             roundNumber = int (length (RoundHistory g1)) + 1
         in case NewRound roundNumber secretWord (GetPlayerIDs g1 order) shuf pick now of
              None \<Rightarrow> None
            | Some r \<Rightarrow>
                (let g2 = g1\<lparr>CurrentRound := Some r\<rparr>;
                     g3 = g2\<lparr>Players :=
                            for_each_value
                              (\<lambda>playerID player.
                                 if playerID = ImposterID r then player\<lparr>Role := RoleImposter\<rparr>
                                 else player\<lparr>Role := RoleVilek\<rparr>)
                              (Players g2)\<rparr>
                 in Some (None, g3\<lparr>Phase := PhaseRoleAssignment\<rparr>))))"

definition TransitionToSubmission :: "Game \<Rightarrow> error option \<times> Game" where
  "TransitionToSubmission g =
     (if Phase g \<noteq> PhaseRoleAssignment then (Some ErrInvalidTransition, g)
      else (None, g\<lparr>Phase := PhaseSubmission\<rparr>))"

text \<open>\<open>SubmitWord\<close>: \<open>None\<close> is the index panic inside \<open>GetCurrentPlayerID\<close>.\<close>

definition SubmitWord ::
  "Game \<Rightarrow> string \<Rightarrow> string \<Rightarrow> Time \<Rightarrow> (error option \<times> Game) option" where
  "SubmitWord g playerID word now =
     (if Phase g \<noteq> PhaseSubmission then Some (Some ErrInvalidPhase, g)
      else case CurrentRound g of
        None \<Rightarrow> Some (Some ErrInvalidPhase, g)
      | Some r \<Rightarrow>
          (let word' = TrimSpace word in
           if word' = '''' then Some (Some ErrEmptyWord, g)
           else case GetPlayer g playerID of
             Inl err \<Rightarrow> Some (Some err, g)
           | Inr player \<Rightarrow>
               if HasSubmitted player then Some (Some ErrAlreadySubmitted, g)
               else (case AddSubmission r playerID (Nickname player) word' now of
                  None \<Rightarrow> None
                | Some (Some err, r') \<Rightarrow> Some (Some err, g\<lparr>CurrentRound := Some r'\<rparr>)
                | Some (None, r') \<Rightarrow>
                    Some (None,
                      g\<lparr>CurrentRound := Some r',
                        Players :=
                          AList.update playerID (player\<lparr>HasSubmitted := True\<rparr>) (Players g)\<rparr>))))"

definition Game_AllSubmitted :: "Game \<Rightarrow> bool" where
  "Game_AllSubmitted g = (case CurrentRound g of None \<Rightarrow> False | Some r \<Rightarrow> AllSubmitted r)"

definition TransitionToVoting :: "Game \<Rightarrow> error option \<times> Game" where
  "TransitionToVoting g =
     (if Phase g \<noteq> PhaseSubmission then (Some ErrInvalidTransition, g)
      else (None, g\<lparr>Phase := PhaseVoting\<rparr>))"

definition CastVote :: "Game \<Rightarrow> string \<Rightarrow> string \<Rightarrow> Time \<Rightarrow> error option \<times> Game" where
  "CastVote g voterID targetID now =
     (if Phase g \<noteq> PhaseVoting then (Some ErrInvalidPhase, g)
      else case CurrentRound g of
        None \<Rightarrow> (Some ErrInvalidPhase, g)
      | Some r \<Rightarrow>
          if voterID = targetID then (Some ErrCannotVoteSelf, g)
          else (case GetPlayer g voterID of
             Inl err \<Rightarrow> (Some err, g)
           | Inr voter \<Rightarrow>
               if HasVoted voter then (Some ErrAlreadyVoted, g)
               else (case GetPlayer g targetID of
                  Inl _ \<Rightarrow> (Some ErrInvalidTargetID, g)
                | Inr _ \<Rightarrow>
                    (case AddVote r voterID targetID now of
                       (Some err, r') \<Rightarrow> (Some err, g\<lparr>CurrentRound := Some r'\<rparr>)
                     | (None, r') \<Rightarrow>
                         (None,
                          g\<lparr>CurrentRound := Some r',
                            Players :=
                              AList.update voterID (voter\<lparr>HasVoted := True\<rparr>) (Players g)\<rparr>)))))"

definition Game_AllVoted :: "Game \<Rightarrow> bool" where
  "Game_AllVoted g =
     (case CurrentRound g of None \<Rightarrow> False | Some r \<Rightarrow> AllVoted r (int (length (Players g))))"

text \<open>
  \<open>EndRound\<close> returns the results, the winner and the error; on an error the results are
  nil and the winner is the empty role.  \<open>order\<close> is the iteration order of the loop over
  the players inside \<open>CalculateResults\<close>.
\<close>

definition EndRound ::
  "Game \<Rightarrow> string list \<Rightarrow> Time \<Rightarrow> (VoteResult list \<times> Role \<times> error option) \<times> Game" where
  "EndRound g order now =
     (if Phase g \<noteq> PhaseVoting then (([], '''', Some ErrInvalidPhase), g)
      else case CurrentRound g of
        None \<Rightarrow> (([], '''', Some ErrInvalidPhase), g)
      | Some r \<Rightarrow>
          (case CalculateResults r (Players g) order now of
             (results, winner, r') \<Rightarrow>
               ((results, winner, None),
                g\<lparr>CurrentRound := Some r', RoundHistory := RoundHistory g @ [r'],
                  Phase := PhaseResults\<rparr>)))"

record VoteUpdatePayload =
  VotedCount :: int
  TotalPlayers :: int

definition GetVoteProgress :: "Game \<Rightarrow> VoteUpdatePayload option" where
  "GetVoteProgress g =
     (case CurrentRound g of
        None \<Rightarrow> None
      | Some r \<Rightarrow>
          Some \<lparr>VotedCount = GetVotedCount r, TotalPlayers = int (length (Players g))\<rparr>)"

definition IsHost :: "Game \<Rightarrow> string \<Rightarrow> bool" where
  "IsHost g playerID \<longleftrightarrow> HostID g = playerID"

definition GetPlayerInfoList :: "Game \<Rightarrow> string list \<Rightarrow> PlayerInfo list" where
  "GetPlayerInfoList g order = map (\<lambda>(_, p). ToInfo p) (range_map (Players g) order)"

section \<open>The session's state snapshot\<close>

text \<open>
  \<open>GameSession.GetGameState\<close> builds a \<open>map[string]interface{}\<close>; a key that is not
  set is \<open>None\<close>.  \<open>voteProgress\<close> is set to a pointer that may itself be nil.  The
  locks and the client registry of the session play no part in it: the method is a function
  of the game the session wraps.  In the RESULTS phase it calls \<open>CalculateResults\<close> on the
  current round, which writes \<open>Winner\<close> and \<open>EndedAt\<close> of that round, so the game is
  returned with the snapshot.  (The round appended to \<open>RoundHistory\<close> by \<open>EndRound\<close> is
  the same Go object; the history is modelled by value and keeps the round as \<open>EndRound\<close>
  left it.)  \<open>infoOrder\<close> and \<open>resOrder\<close> are the iteration orders of the loops of
  \<open>GetPlayerInfoList\<close> and \<open>CalculateResults\<close>; \<open>None\<close> is the index panic inside
  \<open>GetCurrentPlayerID\<close>.
\<close>

record GameState =
  st_phase :: Phase
  st_players :: "PlayerInfo list"
  st_hostId :: string
  st_canStart :: bool
  st_submissions :: "Submission list option"
  st_currentPlayerId :: "string option"
  st_voteProgress :: "VoteUpdatePayload option option"
  st_results :: "VoteResult list option"
  st_winner :: "Role option"
  st_imposterId :: "string option"
  st_secretWord :: "string option"
  st_role :: "Role option"

definition base_state :: "Game \<Rightarrow> string list \<Rightarrow> GameState" where
  "base_state g infoOrder =
     \<lparr>st_phase = Phase g, st_players = GetPlayerInfoList g infoOrder, st_hostId = HostID g,
      st_canStart = CanStart g, st_submissions = None, st_currentPlayerId = None,
      st_voteProgress = None, st_results = None, st_winner = None, st_imposterId = None,
      st_secretWord = None, st_role = None\<rparr>"

definition phase_state ::
  "Game \<Rightarrow> GameState \<Rightarrow> string list \<Rightarrow> Time \<Rightarrow> (GameState \<times> Game) option" where
  "phase_state g state resOrder now =
     (if Phase g = PhaseSubmission then
        (case CurrentRound g of
           None \<Rightarrow> Some (state, g)
         | Some r \<Rightarrow>
             (case GetCurrentPlayerID r of
                None \<Rightarrow> None
              | Some cur \<Rightarrow>
                  Some (state\<lparr>st_submissions := Some (Submissions r),
                               st_currentPlayerId := Some cur\<rparr>, g)))
      else if Phase g = PhaseVoting then
        Some (state\<lparr>st_voteProgress := Some (GetVoteProgress g)\<rparr>, g)
      else if Phase g = PhaseResults then
        (case CurrentRound g of
           None \<Rightarrow> Some (state, g)
         | Some r \<Rightarrow>
             (case CalculateResults r (Players g) resOrder now of
                (results, _, r') \<Rightarrow>
                  Some (state\<lparr>st_results := Some results, st_winner := Some (Winner r'),
                               st_imposterId := Some (ImposterID r'),
                               st_secretWord := Some (SecretWord r')\<rparr>,
                        g\<lparr>CurrentRound := Some r'\<rparr>)))
      else Some (state, g))"

definition role_state :: "Game \<Rightarrow> string \<Rightarrow> GameState \<Rightarrow> GameState" where
  "role_state g playerID state =
     (case GetPlayer g playerID of
        Inl _ \<Rightarrow> state
      | Inr player \<Rightarrow>
          if Role player \<noteq> '''' then
            (let state1 = state\<lparr>st_role := Some (Role player)\<rparr> in
             case CurrentRound g of
               None \<Rightarrow> state1
             | Some r \<Rightarrow>
                 if Role player = RoleVilek then state1\<lparr>st_secretWord := Some (SecretWord r)\<rparr>
                 else state1)
          else state)"

definition GetGameState ::
  "Game \<Rightarrow> string \<Rightarrow> string list \<Rightarrow> string list \<Rightarrow> Time \<Rightarrow> (GameState \<times> Game) option" where
  "GetGameState g playerID infoOrder resOrder now =
     (case phase_state g (base_state g infoOrder) resOrder now of
        None \<Rightarrow> None
      | Some (state, g') \<Rightarrow> Some (role_state g' playerID state, g'))"

section \<open>The hub\<close>

text \<open>
  The hub maps a room code to a session; a session is modelled by the game it wraps.
  \<open>roomCodeLength\<close> is an unexported field that \<open>NewGameHub\<close> sets to
  \<open>DefaultRoomCodeLength\<close> and nothing else assigns, so it is a natural number here.
  \<open>crypto/rand.Read\<close> fills the buffer \<open>b\<close> with bytes: \<open>b i\<close> is the byte at index
  \<open>i\<close>, and \<open>rnd k\<close> is the buffer of the attempt number \<open>k\<close>.
\<close>

definition DefaultRoomCodeLength :: nat where
  "DefaultRoomCodeLength = 6"

definition RoomCodeChars :: string where
  "RoomCodeChars = ''ABCDEFGHJKLMNPQRSTUVWXYZ23456789''"

record GameHub =
  sessions :: "Game gomap"
  roomCodeLength :: nat

definition NewGameHub :: GameHub where
  "NewGameHub = \<lparr>sessions = [], roomCodeLength = DefaultRoomCodeLength\<rparr>"

definition generateRoomCode :: "GameHub \<Rightarrow> (nat \<Rightarrow> 8 word) \<Rightarrow> string" where
  "generateRoomCode h b =
     map (\<lambda>i. RoomCodeChars ! (unat (b i) mod length RoomCodeChars)) [0..<roomCodeLength h]"

text \<open>
  The loop of \<open>CreateGame\<close>: \<open>for attempts := 0; attempts < 10; attempts++\<close>, leaving
  with \<open>break\<close> at the first code that is not a key of \<open>sessions\<close>.  It returns the last
  code generated and the number of codes generated.
\<close>

function generate_unique ::
  "GameHub \<Rightarrow> (nat \<Rightarrow> nat \<Rightarrow> 8 word) \<Rightarrow> nat \<Rightarrow> string \<Rightarrow> string \<times> nat" where
  "generate_unique h rnd attempts roomCode =
     (if attempts < 10 then
        (let roomCode' = generateRoomCode h (rnd attempts) in
         if map_of (sessions h) roomCode' = None then (roomCode', attempts + 1)
         else generate_unique h rnd (attempts + 1) roomCode')
      else (roomCode, attempts))"
  by pat_completeness auto
termination
  by (relation "measure (\<lambda>(h, rnd, attempts, roomCode). 10 - attempts)") auto

declare generate_unique.simps [simp del]

definition CreateGame ::
  "GameHub \<Rightarrow> (nat \<Rightarrow> nat \<Rightarrow> 8 word) \<Rightarrow> Time \<Rightarrow> (error + Game) \<times> GameHub" where
  "CreateGame h rnd now =
     (let roomCode = fst (generate_unique h rnd 0 '''') in
      if map_of (sessions h) roomCode \<noteq> None then (Inl ErrNoUniqueRoomCode, h)
      else
        (let game = NewGame roomCode now
         in (Inr game, h\<lparr>sessions := AList.update roomCode game (sessions h)\<rparr>)))"

definition attempts_made :: "GameHub \<Rightarrow> (nat \<Rightarrow> nat \<Rightarrow> 8 word) \<Rightarrow> nat" where
  "attempts_made h rnd = snd (generate_unique h rnd 0 '''')"

section \<open>Notions used to state the properties\<close>

text \<open>
  The player map of a game built by \<open>AddPlayer\<close>: every key occurs once and is the
  \<open>ID\<close> of the player stored under it.
\<close>

definition players_wf :: "Player gomap \<Rightarrow> bool" where
  "players_wf m \<longleftrightarrow> distinct (keys m) \<and> list_all (\<lambda>(k, p). ID p = k) m"

text \<open>One operation of the game, with any outcome, on any arguments.\<close>

inductive game_step :: "Game \<Rightarrow> Game \<Rightarrow> bool" where
  step_AddPlayer:
    "AddPlayer g playerID nickname now = (res, g') \<Longrightarrow> game_step g g'"
| step_RemovePlayer:
    "RemovePlayer g playerID order = (err, g') \<Longrightarrow>
     iteration_order (AList.delete playerID (Players g)) order \<Longrightarrow> game_step g g'"
| step_StartRound:
    "StartRound g secretWord order shuf pick now = Some (err, g') \<Longrightarrow>
     iteration_order (Players g) order \<Longrightarrow> game_step g g'"
| step_TransitionToSubmission:
    "TransitionToSubmission g = (err, g') \<Longrightarrow> game_step g g'"
| step_SubmitWord:
    "SubmitWord g playerID word now = Some (err, g') \<Longrightarrow> game_step g g'"
| step_TransitionToVoting:
    "TransitionToVoting g = (err, g') \<Longrightarrow> game_step g g'"
| step_CastVote:
    "CastVote g voterID targetID now = (err, g') \<Longrightarrow> game_step g g'"
| step_EndRound:
    "EndRound g order now = (res, g') \<Longrightarrow>
     iteration_order (Players g) order \<Longrightarrow> game_step g g'"

text \<open>The six edges of the transition table, as the specification lists them.\<close>

definition allowed_edges :: "(Phase \<times> Phase) list" where
  "allowed_edges =
     [(PhaseLobby, PhaseRoleAssignment), (PhaseRoleAssignment, PhaseSubmission),
      (PhaseSubmission, PhaseVoting), (PhaseVoting, PhaseResults),
      (PhaseResults, PhaseRoleAssignment), (PhaseResults, PhaseLobby)]"

text \<open>
  The number of votes cast for a candidate; the greatest number of votes of a player (zero
  without players); the accused as \<open>CalculateResults\<close> determines it: the first player, in
  the order of the iteration, whose count is that greatest number, when it is positive, and
  the empty id otherwise; and the specification's candidate with the strictly greatest
  count.
\<close>

definition votes_for :: "Vote list \<Rightarrow> string \<Rightarrow> int" where
  "votes_for votes k = int (length (filter (\<lambda>v. TargetID v = k) votes))"

definition max_votes :: "(string \<Rightarrow> int) \<Rightarrow> string list \<Rightarrow> int" where
  "max_votes c ks = foldr (\<lambda>k m. max (c k) m) ks 0"

text \<open>The running maximum of the loop: the greatest of \<open>m\<close> and the counts of \<open>ks\<close>.\<close>

definition max_from :: "(string \<Rightarrow> int) \<Rightarrow> string list \<Rightarrow> int \<Rightarrow> int" where
  "max_from c ks m = foldr (\<lambda>k m. max (c k) m) ks m"

definition accused :: "(string \<Rightarrow> int) \<Rightarrow> string list \<Rightarrow> string" where
  "accused c ks =
     (if max_votes c ks > 0
      then (case find (\<lambda>k. c k = max_votes c ks) ks of Some k \<Rightarrow> k | None \<Rightarrow> '''')
      else '''')"




text \<open>
  The role that the caller of \<open>GetGameState\<close> holds: \<open>GetPlayer\<close> finds the caller and
  the role is not the empty string.
\<close>

definition own_role :: "Game \<Rightarrow> string \<Rightarrow> Role option" where
  "own_role g playerID =
     (case map_of (Players g) playerID of
        None \<Rightarrow> None
      | Some player \<Rightarrow> if Role player = '''' then None else Some (Role player))"

text \<open>
  Two games are the same but for the roles that \<open>playerID\<close> does not hold: they have the
  same players under the same keys, who differ in \<open>Role\<close> at most, \<open>playerID\<close> has the
  same role in both, the current rounds differ in \<open>ImposterID\<close> at most, and every other
  field of the game is the same.
\<close>

definition same_but_roles :: "string \<Rightarrow> Game \<Rightarrow> Game \<Rightarrow> bool" where
  "same_but_roles playerID g1 g2 \<longleftrightarrow>
     list_all2 (\<lambda>e1 e2. fst e1 = fst e2 \<and> (snd e1)\<lparr>Role := Role (snd e2)\<rparr> = snd e2)
       (Players g1) (Players g2)
     \<and> map_option Role (map_of (Players g1) playerID) = map_option Role (map_of (Players g2) playerID)
     \<and> rel_option (\<lambda>r1 r2. r1\<lparr>ImposterID := ImposterID r2\<rparr> = r2) (CurrentRound g1) (CurrentRound g2)
     \<and> g1\<lparr>Players := Players g2, CurrentRound := CurrentRound g2\<rparr> = g2"

section \<open>Concrete rounds, games and hubs\<close>


text \<open>A round of two players, \<open>b\<close> then \<open>a\<close>, after both have submitted.\<close>

definition round_done :: Round where
  "round_done =
     \<lparr>Number = 1, SecretWord = ''neon'', ImposterID = ''b'',
      Submissions = [NewSubmission ''b'' ''Bo'' ''light'' 1 2, NewSubmission ''a'' ''Al'' ''sign'' 2 3],
      Votes = [], CurrentPlayerIdx = 2, PlayerOrder = [''b'', ''a''], Winner = '''',
      StartedAt = 1, EndedAt = 0\<rparr>"

text \<open>
  A game of four players who joined a new room one after the other, and the game after its
  first round has started: the runtime ranges over the players in the order \<open>a, b, c, d\<close>,
  every draw of the shuffle is 0, which gives the turn order \<open>b, c, d, a\<close>, and the
  draw for the imposter is 1, which picks \<open>b\<close>.
\<close>

definition game_lobby :: Game where
  "game_lobby =
     snd (AddPlayer (snd (AddPlayer (snd (AddPlayer (snd (AddPlayer (NewGame ''ROOM01'' 0)
       ''a'' ''Al'' 1)) ''b'' ''Bo'' 2)) ''c'' ''Cy'' 3)) ''d'' ''Di'' 4)"

definition round_four :: Round where
  "round_four =
     \<lparr>Number = 1, SecretWord = ''neon'', ImposterID = ''b'', Submissions = [], Votes = [],
      CurrentPlayerIdx = 0, PlayerOrder = [''b'', ''c'', ''d'', ''a''], Winner = '''',
      StartedAt = 5, EndedAt = 0\<rparr>"

definition players_roles :: "Player gomap" where
  "players_roles =
     [(''a'', (NewPlayer ''a'' ''Al'' 1)\<lparr>Role := RoleVilek\<rparr>),
      (''b'', (NewPlayer ''b'' ''Bo'' 2)\<lparr>Role := RoleImposter\<rparr>),
      (''c'', (NewPlayer ''c'' ''Cy'' 3)\<lparr>Role := RoleVilek\<rparr>),
      (''d'', (NewPlayer ''d'' ''Di'' 4)\<lparr>Role := RoleVilek\<rparr>)]"

definition game_roles :: Game where
  "game_roles =
     game_lobby\<lparr>Players := players_roles, CurrentRound := Some round_four,
                Phase := PhaseRoleAssignment\<rparr>"

text \<open>The game of four players when the reveal delay has passed: it is \<open>b\<close>'s turn.\<close>

definition game_sub :: Game where
  "game_sub = snd (TransitionToSubmission game_roles)"

text \<open>
  The game of four players after each has submitted a word in turn and the voting has
  begun, and the same game after \<open>a\<close> has voted for \<open>b\<close>.
\<close>

definition after_submit :: "Game \<Rightarrow> string \<Rightarrow> string \<Rightarrow> Time \<Rightarrow> Game" where
  "after_submit g playerID word now =
     (case SubmitWord g playerID word now of Some (_, g') \<Rightarrow> g' | None \<Rightarrow> g)"

definition game_vote :: Game where
  "game_vote =
     snd (TransitionToVoting
       (after_submit (after_submit (after_submit (after_submit game_sub
          ''b'' '' light '' 6) ''c'' ''glow'' 7) ''d'' ''tube'' 8) ''a'' ''sign'' 9))"

definition round_vote :: Round where
  "round_vote =
     round_four\<lparr>Submissions :=
                  [NewSubmission ''b'' ''Bo'' ''light'' 1 6, NewSubmission ''c'' ''Cy'' ''glow'' 2 7,
                   NewSubmission ''d'' ''Di'' ''tube'' 3 8, NewSubmission ''a'' ''Al'' ''sign'' 4 9],
                CurrentPlayerIdx := 4\<rparr>"

definition players_vote :: "Player gomap" where
  "players_vote =
     [(''a'', (NewPlayer ''a'' ''Al'' 1)\<lparr>Role := RoleVilek, HasSubmitted := True\<rparr>),
      (''b'', (NewPlayer ''b'' ''Bo'' 2)\<lparr>Role := RoleImposter, HasSubmitted := True\<rparr>),
      (''c'', (NewPlayer ''c'' ''Cy'' 3)\<lparr>Role := RoleVilek, HasSubmitted := True\<rparr>),
      (''d'', (NewPlayer ''d'' ''Di'' 4)\<lparr>Role := RoleVilek, HasSubmitted := True\<rparr>)]"

definition game_vote1 :: Game where
  "game_vote1 = snd (CastVote game_vote ''a'' ''b'' 10)"

text \<open>
  The voting of the four players: \<open>a\<close> and \<open>c\<close> vote for \<open>b\<close>, then \<open>b\<close> votes for
  \<open>a\<close> (three votes, \<open>b\<close> ahead), then \<open>d\<close> votes for \<open>a\<close> (four votes, \<open>a\<close> and
  \<open>b\<close> level).  In the last round only \<open>c\<close> and \<open>d\<close> have voted, both for \<open>a\<close>.
\<close>

definition game_three :: Game where
  "game_three = snd (CastVote (snd (CastVote game_vote1 ''c'' ''b'' 11)) ''b'' ''a'' 12)"

definition game_voted :: Game where
  "game_voted = snd (CastVote game_three ''d'' ''a'' 13)"

definition round_three :: Round where
  "round_three =
     round_vote\<lparr>Votes := [NewVote ''a'' ''b'' 10, NewVote ''c'' ''b'' 11, NewVote ''b'' ''a'' 12]\<rparr>"

definition round_voted :: Round where
  "round_voted =
     round_vote\<lparr>Votes := [NewVote ''a'' ''b'' 10, NewVote ''c'' ''b'' 11, NewVote ''b'' ''a'' 12,
                           NewVote ''d'' ''a'' 13]\<rparr>"

definition players_three :: "Player gomap" where
  "players_three =
     [(''a'', (NewPlayer ''a'' ''Al'' 1)\<lparr>Role := RoleVilek, HasVoted := True, HasSubmitted := True\<rparr>),
      (''b'', (NewPlayer ''b'' ''Bo'' 2)\<lparr>Role := RoleImposter, HasVoted := True, HasSubmitted := True\<rparr>),
      (''c'', (NewPlayer ''c'' ''Cy'' 3)\<lparr>Role := RoleVilek, HasVoted := True, HasSubmitted := True\<rparr>),
      (''d'', (NewPlayer ''d'' ''Di'' 4)\<lparr>Role := RoleVilek, HasSubmitted := True\<rparr>)]"

definition players_voted :: "Player gomap" where
  "players_voted =
     [(''a'', (NewPlayer ''a'' ''Al'' 1)\<lparr>Role := RoleVilek, HasVoted := True, HasSubmitted := True\<rparr>),
      (''b'', (NewPlayer ''b'' ''Bo'' 2)\<lparr>Role := RoleImposter, HasVoted := True, HasSubmitted := True\<rparr>),
      (''c'', (NewPlayer ''c'' ''Cy'' 3)\<lparr>Role := RoleVilek, HasVoted := True, HasSubmitted := True\<rparr>),
      (''d'', (NewPlayer ''d'' ''Di'' 4)\<lparr>Role := RoleVilek, HasVoted := True, HasSubmitted := True\<rparr>)]"

definition round_missed :: Round where
  "round_missed = round_vote\<lparr>Votes := [NewVote ''c'' ''a'' 10, NewVote ''d'' ''a'' 11]\<rparr>"

text \<open>
  The game of four players at the turn of \<open>b\<close>, as it would be had \<open>c\<close> been picked as
  imposter instead of \<open>b\<close>; and the game after the four votes when \<open>EndRound\<close> has run
  at time 20 and the runtime has visited \<open>b\<close> first.
\<close>

definition players_roles_c :: "Player gomap" where
  "players_roles_c =
     [(''a'', (NewPlayer ''a'' ''Al'' 1)\<lparr>Role := RoleVilek\<rparr>),
      (''b'', (NewPlayer ''b'' ''Bo'' 2)\<lparr>Role := RoleVilek\<rparr>),
      (''c'', (NewPlayer ''c'' ''Cy'' 3)\<lparr>Role := RoleImposter\<rparr>),
      (''d'', (NewPlayer ''d'' ''Di'' 4)\<lparr>Role := RoleVilek\<rparr>)]"

definition game_sub_c :: Game where
  "game_sub_c =
     game_sub\<lparr>Players := players_roles_c,
              CurrentRound := Some (round_four\<lparr>ImposterID := ''c''\<rparr>)\<rparr>"

definition game_results :: Game where
  "game_results = snd (EndRound game_voted [''b'', ''a'', ''c'', ''d''] 20)"

text \<open>
  A new room that its first player joins and leaves again, and that a second player then
  joins.  The map is empty when the first player has left, so the loop over it in
  \<open>RemovePlayer\<close> has the empty iteration order.
\<close>

definition game_one :: Game where
  "game_one = snd (AddPlayer (NewGame ''ROOM01'' 0) ''a'' ''Al'' 1)"

definition game_left :: Game where
  "game_left = snd (RemovePlayer game_one ''a'' [])"

definition game_rejoined :: Game where
  "game_rejoined = snd (AddPlayer game_left ''b'' ''Bo'' 2)"

text \<open>
  A hub with one room, and two sources of random bytes: the first gives the code of that
  room at the first attempt and another code afterwards, the second gives the code of that
  room at every attempt.
\<close>

definition hub_one :: GameHub where
  "hub_one = \<lparr>sessions = [(''AAAAAA'', NewGame ''AAAAAA'' 0)], roomCodeLength = 6\<rparr>"

definition rnd_second :: "nat \<Rightarrow> nat \<Rightarrow> 8 word" where
  "rnd_second k i = (if k = 0 then 0 else 33)"

definition rnd_zero :: "nat \<Rightarrow> nat \<Rightarrow> 8 word" where
  "rnd_zero k i = 0"

section \<open>Basic facts\<close>

lemma phase_distinct:
  "PhaseLobby \<noteq> PhaseRoleAssignment" "PhaseLobby \<noteq> PhaseSubmission" "PhaseLobby \<noteq> PhaseVoting"
  "PhaseLobby \<noteq> PhaseResults" "PhaseRoleAssignment \<noteq> PhaseSubmission"
  "PhaseRoleAssignment \<noteq> PhaseVoting" "PhaseRoleAssignment \<noteq> PhaseResults"
  "PhaseSubmission \<noteq> PhaseVoting" "PhaseSubmission \<noteq> PhaseResults" "PhaseVoting \<noteq> PhaseResults"
  "PhaseRoleAssignment \<noteq> PhaseLobby" "PhaseSubmission \<noteq> PhaseLobby" "PhaseVoting \<noteq> PhaseLobby"
  "PhaseResults \<noteq> PhaseLobby" "PhaseSubmission \<noteq> PhaseRoleAssignment"
  "PhaseVoting \<noteq> PhaseRoleAssignment" "PhaseResults \<noteq> PhaseRoleAssignment"
  "PhaseVoting \<noteq> PhaseSubmission" "PhaseResults \<noteq> PhaseSubmission" "PhaseResults \<noteq> PhaseVoting"
  by (simp_all add: PhaseLobby_def PhaseRoleAssignment_def PhaseSubmission_def PhaseVoting_def
      PhaseResults_def)

lemma role_distinct:
  "RoleImposter \<noteq> RoleVilek" "RoleVilek \<noteq> RoleImposter" "RoleImposter \<noteq> ''''" "RoleVilek \<noteq> ''''"
  "'''' \<noteq> RoleImposter" "'''' \<noteq> RoleVilek"
  by (simp_all add: RoleImposter_def RoleVilek_def)

lemma CanTransitionTo_iff:
  "CanTransitionTo p t \<longleftrightarrow>
     (p = PhaseLobby \<and> t = PhaseRoleAssignment) \<or>
     (p = PhaseRoleAssignment \<and> t = PhaseSubmission) \<or>
     (p = PhaseSubmission \<and> t = PhaseVoting) \<or>
     (p = PhaseVoting \<and> t = PhaseResults) \<or>
     (p = PhaseResults \<and> t = PhaseRoleAssignment) \<or>
     (p = PhaseResults \<and> t = PhaseLobby)"
  unfolding CanTransitionTo_def validTransitions_def
  using phase_distinct by (auto split: if_splits)

lemma AddPlayer_phase: "AddPlayer g p n now = (res, g') \<Longrightarrow> Phase g' = Phase g"
  by (auto simp: AddPlayer_def Let_def split: if_splits)

lemma RemovePlayer_phase: "RemovePlayer g p order = (err, g') \<Longrightarrow> Phase g' = Phase g"
  by (auto simp: RemovePlayer_def Let_def split: if_splits option.splits list.splits)

lemma StartRound_phase:
  "StartRound g w order shuf pick now = Some (err, g') \<Longrightarrow>
   Phase g' = Phase g \<or> ((Phase g = PhaseLobby \<or> Phase g = PhaseResults) \<and> Phase g' = PhaseRoleAssignment)"
  by (auto simp: StartRound_def Let_def split: if_splits option.splits)

lemma TransitionToSubmission_phase:
  "TransitionToSubmission g = (err, g') \<Longrightarrow>
   Phase g' = Phase g \<or> (Phase g = PhaseRoleAssignment \<and> Phase g' = PhaseSubmission)"
  by (auto simp: TransitionToSubmission_def split: if_splits)

lemma TransitionToVoting_phase:
  "TransitionToVoting g = (err, g') \<Longrightarrow>
   Phase g' = Phase g \<or> (Phase g = PhaseSubmission \<and> Phase g' = PhaseVoting)"
  by (auto simp: TransitionToVoting_def split: if_splits)

lemma SubmitWord_phase: "SubmitWord g p w now = Some (err, g') \<Longrightarrow> Phase g' = Phase g"
  by (auto simp: SubmitWord_def Let_def split: if_splits option.splits sum.splits prod.splits)

lemma CastVote_phase: "CastVote g v t now = (err, g') \<Longrightarrow> Phase g' = Phase g"
  by (auto simp: CastVote_def Let_def split: if_splits option.splits sum.splits prod.splits)

lemma EndRound_phase:
  "EndRound g order now = (res, g') \<Longrightarrow>
   Phase g' = Phase g \<or> (Phase g = PhaseVoting \<and> Phase g' = PhaseResults)"
  by (auto simp: EndRound_def Let_def split: if_splits option.splits prod.splits)

lemma game_step_phase:
  "game_step g g' \<Longrightarrow> Phase g' = Phase g \<or> CanTransitionTo (Phase g) (Phase g')"
proof (induction rule: game_step.induct)
  case (step_AddPlayer g playerID nickname now res g')
  then show ?case by (simp add: AddPlayer_phase)
next
  case (step_RemovePlayer g playerID order err g')
  then show ?case by (simp add: RemovePlayer_phase)
next
  case (step_StartRound g secretWord order shuf pick now err g')
  from StartRound_phase[OF step_StartRound(1)] show ?case
    by (auto simp: CanTransitionTo_iff)
next
  case (step_TransitionToSubmission g err g')
  from TransitionToSubmission_phase[OF this] show ?case by (auto simp: CanTransitionTo_iff)
next
  case (step_SubmitWord g playerID word now err g')
  then show ?case by (simp add: SubmitWord_phase)
next
  case (step_TransitionToVoting g err g')
  from TransitionToVoting_phase[OF this] show ?case by (auto simp: CanTransitionTo_iff)
next
  case (step_CastVote g voterID targetID now err g')
  then show ?case by (simp add: CastVote_phase)
next
  case (step_EndRound g order now res g')
  from EndRound_phase[OF step_EndRound(1)] show ?case by (auto simp: CanTransitionTo_iff)
qed

lemma allowed_edges_iff: "(p, t) \<in> set allowed_edges \<longleftrightarrow> CanTransitionTo p t"
  by (auto simp: allowed_edges_def CanTransitionTo_iff)

section \<open>C8: the phase state machine\<close>

text \<open>
  C8 (as amended).  \<open>Phase.CanTransitionTo\<close> is true exactly for the six edges
  LOBBY to ROLE_ASSIGNMENT, ROLE_ASSIGNMENT to SUBMISSION, SUBMISSION to VOTING, VOTING to
  RESULTS, RESULTS to ROLE_ASSIGNMENT and RESULTS to LOBBY.  Every operation of the game
  leaves the phase as it is or moves it along one of these edges.  An operation asked to
  move the phase along a pair that is not an edge fails and changes nothing:
  \<open>TransitionToSubmission\<close> and \<open>TransitionToVoting\<close> with \<open>ErrInvalidTransition\<close>,
  \<open>StartRound\<close> and \<open>EndRound\<close> with \<open>ErrInvalidPhase\<close>.
\<close>

theorem phase_state_machine:
  "(CanTransitionTo p t \<longleftrightarrow> (p, t) \<in> set allowed_edges)
   \<and> (game_step g g' \<longrightarrow> Phase g' = Phase g \<or> (Phase g, Phase g') \<in> set allowed_edges)
   \<and> ((Phase g1, PhaseSubmission) \<notin> set allowed_edges \<longrightarrow>
        TransitionToSubmission g1 = (Some ErrInvalidTransition, g1))
   \<and> ((Phase g2, PhaseVoting) \<notin> set allowed_edges \<longrightarrow>
        TransitionToVoting g2 = (Some ErrInvalidTransition, g2))
   \<and> ((Phase g3, PhaseRoleAssignment) \<notin> set allowed_edges \<longrightarrow>
        StartRound g3 secretWord order shuf pick now = Some (Some ErrInvalidPhase, g3))
   \<and> ((Phase g4, PhaseResults) \<notin> set allowed_edges \<longrightarrow>
        EndRound g4 order' now' = (([], '''', Some ErrInvalidPhase), g4))"
proof (intro conjI impI)
  show "CanTransitionTo p t \<longleftrightarrow> (p, t) \<in> set allowed_edges"
    by (simp add: allowed_edges_iff)
next
  assume "game_step g g'"
  then show "Phase g' = Phase g \<or> (Phase g, Phase g') \<in> set allowed_edges"
    by (simp add: allowed_edges_iff game_step_phase)
next
  assume "(Phase g1, PhaseSubmission) \<notin> set allowed_edges"
  then have "Phase g1 \<noteq> PhaseRoleAssignment"
    by (auto simp: allowed_edges_def)
  then show "TransitionToSubmission g1 = (Some ErrInvalidTransition, g1)"
    by (simp add: TransitionToSubmission_def)
next
  assume "(Phase g2, PhaseVoting) \<notin> set allowed_edges"
  then have "Phase g2 \<noteq> PhaseSubmission"
    by (auto simp: allowed_edges_def)
  then show "TransitionToVoting g2 = (Some ErrInvalidTransition, g2)"
    by (simp add: TransitionToVoting_def)
next
  assume "(Phase g3, PhaseRoleAssignment) \<notin> set allowed_edges"
  then have "Phase g3 \<noteq> PhaseLobby \<and> Phase g3 \<noteq> PhaseResults"
    by (auto simp: allowed_edges_def)
  then show "StartRound g3 secretWord order shuf pick now = Some (Some ErrInvalidPhase, g3)"
    by (simp add: StartRound_def)
next
  assume "(Phase g4, PhaseResults) \<notin> set allowed_edges"
  then have "Phase g4 \<noteq> PhaseVoting"
    by (auto simp: allowed_edges_def)
  then show "EndRound g4 order' now' = (([], '''', Some ErrInvalidPhase), g4)"
    by (simp add: EndRound_def)
qed

text \<open>The theorem at concrete games, one for each of its hypotheses.\<close>

theorem phase_state_machine_witness:
  "CanTransitionTo PhaseResults PhaseLobby
   \<and> game_step ((NewGame ''ROOM01'' 0)\<lparr>Phase := PhaseRoleAssignment\<rparr>)
        ((NewGame ''ROOM01'' 0)\<lparr>Phase := PhaseSubmission\<rparr>)
   \<and> (PhaseRoleAssignment, PhaseSubmission) \<in> set allowed_edges
   \<and> (PhaseLobby, PhaseSubmission) \<notin> set allowed_edges
   \<and> TransitionToSubmission (NewGame ''ROOM01'' 0) =
        (Some ErrInvalidTransition, NewGame ''ROOM01'' 0)
   \<and> (PhaseLobby, PhaseVoting) \<notin> set allowed_edges
   \<and> TransitionToVoting (NewGame ''ROOM01'' 0) =
        (Some ErrInvalidTransition, NewGame ''ROOM01'' 0)
   \<and> (PhaseSubmission, PhaseRoleAssignment) \<notin> set allowed_edges
   \<and> StartRound ((NewGame ''ROOM01'' 0)\<lparr>Phase := PhaseSubmission\<rparr>) ''neon'' [] (\<lambda>_. 0) 0 1 =
        Some (Some ErrInvalidPhase, (NewGame ''ROOM01'' 0)\<lparr>Phase := PhaseSubmission\<rparr>)
   \<and> (PhaseLobby, PhaseResults) \<notin> set allowed_edges
   \<and> EndRound (NewGame ''ROOM01'' 0) [] 1 =
        (([], '''', Some ErrInvalidPhase), NewGame ''ROOM01'' 0)"
proof -
  let ?g = "NewGame ''ROOM01'' 0"
  let ?a = "?g\<lparr>Phase := PhaseRoleAssignment\<rparr>"
  let ?s = "?g\<lparr>Phase := PhaseSubmission\<rparr>"
  have lobby: "Phase ?g = PhaseLobby" by (simp add: NewGame_def)
  have st: "game_step ?a ?s"
    by (rule step_TransitionToSubmission [where err = None])
       (simp add: TransitionToSubmission_def)
  have e1: "(PhaseLobby, PhaseSubmission) \<notin> set allowed_edges"
    and e2: "(PhaseLobby, PhaseVoting) \<notin> set allowed_edges"
    and e3: "(PhaseSubmission, PhaseRoleAssignment) \<notin> set allowed_edges"
    and e4: "(PhaseLobby, PhaseResults) \<notin> set allowed_edges"
    using phase_distinct by (simp_all add: allowed_edges_def)
  have e5: "(PhaseResults, PhaseLobby) \<in> set allowed_edges"
    by (simp add: allowed_edges_def)
  have ne: "Phase ?s \<noteq> Phase ?a" using phase_distinct by simp
  note T = phase_state_machine [of PhaseResults PhaseLobby ?a ?s ?g ?g ?s "''neon''" "[]"
      "\<lambda>_. 0" 0 1 ?g "[]" 1]
  from T e5 have c1: "CanTransitionTo PhaseResults PhaseLobby" by blast
  from T st ne have c2: "(PhaseRoleAssignment, PhaseSubmission) \<in> set allowed_edges" by simp
  from T e1 lobby have c3: "TransitionToSubmission ?g = (Some ErrInvalidTransition, ?g)" by simp
  from T e2 lobby have c4: "TransitionToVoting ?g = (Some ErrInvalidTransition, ?g)" by simp
  from T e3 have c5: "StartRound ?s ''neon'' [] (\<lambda>_. 0) 0 1 = Some (Some ErrInvalidPhase, ?s)"
    by simp
  from T e4 lobby have c6: "EndRound ?g [] 1 = (([], '''', Some ErrInvalidPhase), ?g)" by simp
  from c1 st c2 e1 c3 e2 c4 e3 c5 e4 c6 show ?thesis by blast
qed

text \<open>
  The claim as first stated gives \<open>InvalidTransition\<close> to every attempt outside the
  table.  \<open>EndRound\<close> on a new game, in the lobby, attempts LOBBY to RESULTS, which is not
  an edge, and returns \<open>ErrInvalidPhase\<close>.
\<close>

theorem phase_error_counterexample:
  "(Phase (NewGame ''ROOM01'' 0), PhaseResults) \<notin> set allowed_edges
   \<and> snd (snd (fst (EndRound (NewGame ''ROOM01'' 0) [] 1))) = Some ErrInvalidPhase
   \<and> snd (snd (fst (EndRound (NewGame ''ROOM01'' 0) [] 1))) \<noteq> Some ErrInvalidTransition"
  using phase_distinct by (simp add: EndRound_def NewGame_def allowed_edges_def)

section \<open>C10: the current player past the end of the turn order\<close>

lemma GetCurrentPlayerID_past_end:
  "CurrentPlayerIdx r \<ge> int (length (PlayerOrder r)) \<Longrightarrow> GetCurrentPlayerID r = Some ''''"
  by (simp add: GetCurrentPlayerID_def)

lemma GetCurrentPlayerID_in_range:
  "0 \<le> CurrentPlayerIdx r \<Longrightarrow> CurrentPlayerIdx r < int (length (PlayerOrder r)) \<Longrightarrow>
   GetCurrentPlayerID r = Some (PlayerOrder r ! nat (CurrentPlayerIdx r))"
  by (simp add: GetCurrentPlayerID_def index_def)

text \<open>
  C10.  \<open>Round.GetCurrentPlayerID\<close> returns the empty string, and does not index the turn
  order, whenever \<open>CurrentPlayerIdx\<close> is at least the length of \<open>PlayerOrder\<close>, in
  particular once \<open>AllSubmitted\<close> holds; then \<open>IsPlayerTurn\<close> is false for every player
  id, a player id being a non-empty string.  On every round whose index is not negative,
  as it is after \<open>NewRound\<close> and any number of submissions, the method returns.
\<close>

theorem GetCurrentPlayerID_total:
  "(CurrentPlayerIdx r \<ge> int (length (PlayerOrder r)) \<longrightarrow> GetCurrentPlayerID r = Some '''')
   \<and> (AllSubmitted r \<longrightarrow>
        GetCurrentPlayerID r = Some '''' \<and> (p \<noteq> '''' \<longrightarrow> IsPlayerTurn r p = Some False))
   \<and> (0 \<le> CurrentPlayerIdx r \<longrightarrow> GetCurrentPlayerID r \<noteq> None \<and> IsPlayerTurn r p \<noteq> None)"
proof (intro conjI impI)
  assume "CurrentPlayerIdx r \<ge> int (length (PlayerOrder r))"
  then show "GetCurrentPlayerID r = Some ''''" by (rule GetCurrentPlayerID_past_end)
next
  assume a: "AllSubmitted r"
  then show c: "GetCurrentPlayerID r = Some ''''"
    by (simp add: AllSubmitted_def GetCurrentPlayerID_past_end)
  assume "p \<noteq> ''''"
  with c show "IsPlayerTurn r p = Some False"
    by (auto simp: IsPlayerTurn_def)
next
  assume "0 \<le> CurrentPlayerIdx r"
  then show "GetCurrentPlayerID r \<noteq> None"
    by (simp add: GetCurrentPlayerID_def index_def)
  then show "IsPlayerTurn r p \<noteq> None"
    by (simp add: IsPlayerTurn_def)
qed

text \<open>The theorem at the round of two players who have both submitted.\<close>

theorem GetCurrentPlayerID_total_witness:
  "CurrentPlayerIdx round_done
     \<ge> int (length (PlayerOrder round_done))
   \<and> AllSubmitted round_done
   \<and> GetCurrentPlayerID round_done = Some ''''
   \<and> ''a'' \<noteq> ''''
   \<and> IsPlayerTurn round_done ''a'' = Some False
   \<and> 0 \<le> CurrentPlayerIdx round_done
   \<and> GetCurrentPlayerID round_done \<noteq> None"
proof -
  let ?r = "round_done"
  have h1: "CurrentPlayerIdx ?r \<ge> int (length (PlayerOrder ?r))"
    by (simp add: round_done_def)
  have h2: "AllSubmitted ?r" by (simp add: AllSubmitted_def round_done_def)
  have h3: "''a'' \<noteq> ''''" by simp
  have h4: "0 \<le> CurrentPlayerIdx ?r" by (simp add: round_done_def)
  from GetCurrentPlayerID_total [of ?r "''a''"] h1 h2 h3 h4 show ?thesis by blast
qed

section \<open>C9: room codes\<close>

lemma RoomCodeChars_length: "length RoomCodeChars = 32"
  by (simp add: RoomCodeChars_def)

lemma generateRoomCode_length: "length (generateRoomCode h b) = roomCodeLength h"
  by (simp add: generateRoomCode_def)

lemma generateRoomCode_alphabet: "set (generateRoomCode h b) \<subseteq> set RoomCodeChars"
proof -
  have "RoomCodeChars ! (n mod length RoomCodeChars) \<in> set RoomCodeChars" for n
    by (rule nth_mem) (simp add: RoomCodeChars_length)
  then show ?thesis by (auto simp: generateRoomCode_def)
qed

lemma generate_unique_unfold:
  "a < 10 \<Longrightarrow>
   generate_unique h rnd a c =
     (if map_of (sessions h) (generateRoomCode h (rnd a)) = None
      then (generateRoomCode h (rnd a), a + 1)
      else generate_unique h rnd (a + 1) (generateRoomCode h (rnd a)))"
  by (subst generate_unique.simps) (simp add: Let_def)

lemma generate_unique_stop: "\<not> a < 10 \<Longrightarrow> generate_unique h rnd a c = (c, a)"
  by (subst generate_unique.simps) simp

lemma generate_unique_spec:
  assumes "generate_unique h rnd a c = (code, n)" and "a < 10"
  shows "a < n \<and> n \<le> 10 \<and> code = generateRoomCode h (rnd (n - 1))
         \<and> (\<forall>j. a \<le> j \<and> j < n - 1 \<longrightarrow> map_of (sessions h) (generateRoomCode h (rnd j)) \<noteq> None)
         \<and> (map_of (sessions h) code \<noteq> None \<longrightarrow> n = 10)"
  using assms
proof (induction h rnd a c rule: generate_unique.induct)
  case (1 h rnd attempts roomCode)
  let ?c = "generateRoomCode h (rnd attempts)"
  note unfold = generate_unique_unfold [OF "1.prems"(2), of h rnd roomCode]
  show ?case
  proof (cases "map_of (sessions h) ?c = None")
    case True
    with "1.prems"(1) [unfolded unfold] have "(code, n) = (?c, attempts + 1)"
      by simp
    then have "code = ?c" "n = attempts + 1" by simp_all
    with True "1.prems"(2) show ?thesis by auto
  next
    case False
    with "1.prems"(1) [unfolded unfold]
    have rec: "generate_unique h rnd (attempts + 1) ?c = (code, n)"
      by simp
    show ?thesis
    proof (cases "attempts + 1 < 10")
      case True
      from "1.IH" [OF "1.prems"(2) refl False rec True]
      have ih1: "attempts + 1 < n" and ih2: "n \<le> 10"
        and ih3: "code = generateRoomCode h (rnd (n - 1))"
        and ih4: "\<forall>j. attempts + 1 \<le> j \<and> j < n - 1 \<longrightarrow>
             map_of (sessions h) (generateRoomCode h (rnd j)) \<noteq> None"
        and ih5: "map_of (sessions h) code \<noteq> None \<longrightarrow> n = 10"
        by blast+
      have "map_of (sessions h) (generateRoomCode h (rnd j)) \<noteq> None"
        if "attempts \<le> j \<and> j < n - 1" for j
      proof (cases "j = attempts")
        case True
        with False show ?thesis by simp
      next
        case False
        with that have "attempts + 1 \<le> j \<and> j < n - 1" by simp
        with ih4 show ?thesis by blast
      qed
      then have all: "\<forall>j. attempts \<le> j \<and> j < n - 1 \<longrightarrow>
             map_of (sessions h) (generateRoomCode h (rnd j)) \<noteq> None" by blast
      from ih1 have "attempts < n" by simp
      with ih2 ih3 all ih5 show ?thesis by blast
    next
      case f: False
      with rec have "(code, n) = (?c, attempts + 1)"
        by (simp add: generate_unique_stop)
      then have cn: "code = ?c" "n = attempts + 1" by simp_all
      from f "1.prems"(2) have "attempts = 9" by simp
      with cn False show ?thesis by auto
    qed
  qed
qed

lemma map_of_keys: "map_of m k = None \<longleftrightarrow> k \<notin> set (keys m)"
  by (simp add: keys_def map_of_eq_None_iff)

lemma update_fresh: "k \<notin> set (keys m) \<Longrightarrow> AList.update k v m = m @ [(k, v)]"
  by (induction m) (auto simp: keys_def)

lemma attempts_made_spec:
  "1 \<le> attempts_made h rnd \<and> attempts_made h rnd \<le> 10
   \<and> fst (generate_unique h rnd 0 []) = generateRoomCode h (rnd (attempts_made h rnd - 1))
   \<and> (\<forall>j. j < attempts_made h rnd - 1 \<longrightarrow> generateRoomCode h (rnd j) \<in> set (keys (sessions h)))
   \<and> (fst (generate_unique h rnd 0 []) \<in> set (keys (sessions h)) \<longrightarrow> attempts_made h rnd = 10)"
proof -
  obtain code n where g: "generate_unique h rnd 0 [] = (code, n)"
    by (cases "generate_unique h rnd 0 []")
  have lt: "(0::nat) < 10" by simp
  note sp = generate_unique_spec [OF g lt]
  from sp have "0 < n" by blast
  then have n1: "1 \<le> n" by simp
  from sp have n2: "n \<le> 10" by blast
  from sp have c: "code = generateRoomCode h (rnd (n - 1))" by blast
  have a: "generateRoomCode h (rnd j) \<in> set (keys (sessions h))" if "j < n - 1" for j
  proof -
    from sp that have "map_of (sessions h) (generateRoomCode h (rnd j)) \<noteq> None" by blast
    then show ?thesis by (simp add: map_of_keys)
  qed
  have t: "n = 10" if "code \<in> set (keys (sessions h))"
  proof -
    from that have "map_of (sessions h) code \<noteq> None" by (simp add: map_of_keys)
    with sp show ?thesis by blast
  qed
  have am: "attempts_made h rnd = n" and fs: "fst (generate_unique h rnd 0 []) = code"
    using g by (simp_all add: attempts_made_def)
  from n1 n2 c a t show ?thesis unfolding am fs by blast
qed

text \<open>
  C9.  A room code generated by the hub has the length the hub is configured with, which
  \<open>NewGameHub\<close> sets to 6, and consists of characters of \<open>RoomCodeChars\<close>.
  \<open>CreateGame\<close> generates at least one and at most ten codes, each one after a collision
  of the one before with a room of the hub.  When it succeeds, the code of the new game is
  the last one generated, it was not a key of the sessions, and the game is registered
  under it, all other sessions untouched.  When it fails, all ten codes collided, the error
  is returned and the hub is unchanged.
\<close>

theorem CreateGame_room_code:
  "length (generateRoomCode h b) = roomCodeLength h
   \<and> set (generateRoomCode h b) \<subseteq> set RoomCodeChars
   \<and> roomCodeLength NewGameHub = 6
   \<and> 1 \<le> attempts_made h rnd \<and> attempts_made h rnd \<le> 10
   \<and> (\<forall>j. j < attempts_made h rnd - 1 \<longrightarrow>
         generateRoomCode h (rnd j) \<in> set (keys (sessions h)))
   \<and> (CreateGame h rnd now = (Inr game, h') \<longrightarrow>
        GameID game = generateRoomCode h (rnd (attempts_made h rnd - 1))
        \<and> GameID game \<notin> set (keys (sessions h))
        \<and> length (GameID game) = roomCodeLength h
        \<and> set (GameID game) \<subseteq> set RoomCodeChars
        \<and> game = NewGame (GameID game) now
        \<and> h' = h\<lparr>sessions := sessions h @ [(GameID game, game)]\<rparr>
        \<and> (distinct (keys (sessions h)) \<longrightarrow> distinct (keys (sessions h'))))
   \<and> (CreateGame hf rndf nowf = (Inl e, hf') \<longrightarrow>
        e = ErrNoUniqueRoomCode \<and> hf' = hf \<and> attempts_made hf rndf = 10
        \<and> (\<forall>j. j < 10 \<longrightarrow> generateRoomCode hf (rndf j) \<in> set (keys (sessions hf))))"
proof (intro conjI)
  show "length (generateRoomCode h b) = roomCodeLength h"
    by (rule generateRoomCode_length)
  show "set (generateRoomCode h b) \<subseteq> set RoomCodeChars"
    by (rule generateRoomCode_alphabet)
  show "roomCodeLength NewGameHub = 6"
    by (simp add: NewGameHub_def DefaultRoomCodeLength_def)
  from attempts_made_spec [of h rnd]
  show "1 \<le> attempts_made h rnd" "attempts_made h rnd \<le> 10"
    "\<forall>j. j < attempts_made h rnd - 1 \<longrightarrow>
         generateRoomCode h (rnd j) \<in> set (keys (sessions h))"
    by blast+
  show "CreateGame h rnd now = (Inr game, h') \<longrightarrow>
        GameID game = generateRoomCode h (rnd (attempts_made h rnd - 1))
        \<and> GameID game \<notin> set (keys (sessions h))
        \<and> length (GameID game) = roomCodeLength h
        \<and> set (GameID game) \<subseteq> set RoomCodeChars
        \<and> game = NewGame (GameID game) now
        \<and> h' = h\<lparr>sessions := sessions h @ [(GameID game, game)]\<rparr>
        \<and> (distinct (keys (sessions h)) \<longrightarrow> distinct (keys (sessions h')))"
  proof
    assume ok: "CreateGame h rnd now = (Inr game, h')"
    let ?code = "fst (generate_unique h rnd 0 '''')"
    from ok have fresh: "?code \<notin> set (keys (sessions h))"
      and game: "game = NewGame ?code now"
      and h': "h' = h\<lparr>sessions := AList.update ?code game (sessions h)\<rparr>"
      by (auto simp: CreateGame_def Let_def map_of_keys split: if_splits)
    from game have gid: "GameID game = ?code" by (simp add: NewGame_def)
    from attempts_made_spec [of h rnd]
    have code: "?code = generateRoomCode h (rnd (attempts_made h rnd - 1))" by blast
    from fresh h' gid have h'': "h' = h\<lparr>sessions := sessions h @ [(GameID game, game)]\<rparr>"
      by (simp add: update_fresh)
    from h'' fresh gid
    have d: "distinct (keys (sessions h)) \<longrightarrow> distinct (keys (sessions h'))"
      by (simp add: keys_def)
    from gid code have f1: "GameID game = generateRoomCode h (rnd (attempts_made h rnd - 1))"
      by simp
    from gid fresh have f2: "GameID game \<notin> set (keys (sessions h))" by simp
    from f1 have f3: "length (GameID game) = roomCodeLength h"
      by (simp add: generateRoomCode_length)
    from f1 have f4: "set (GameID game) \<subseteq> set RoomCodeChars"
      by (simp add: generateRoomCode_alphabet)
    from game have f5: "game = NewGame (GameID game) now"
      by (simp add: NewGame_def)
    from f1 f2 f3 f4 f5 h'' d show
      "GameID game = generateRoomCode h (rnd (attempts_made h rnd - 1))
        \<and> GameID game \<notin> set (keys (sessions h))
        \<and> length (GameID game) = roomCodeLength h
        \<and> set (GameID game) \<subseteq> set RoomCodeChars
        \<and> game = NewGame (GameID game) now
        \<and> h' = h\<lparr>sessions := sessions h @ [(GameID game, game)]\<rparr>
        \<and> (distinct (keys (sessions h)) \<longrightarrow> distinct (keys (sessions h')))"
      by blast
  qed
  show "CreateGame hf rndf nowf = (Inl e, hf') \<longrightarrow>
        e = ErrNoUniqueRoomCode \<and> hf' = hf \<and> attempts_made hf rndf = 10
        \<and> (\<forall>j. j < 10 \<longrightarrow> generateRoomCode hf (rndf j) \<in> set (keys (sessions hf)))"
  proof
    assume bad: "CreateGame hf rndf nowf = (Inl e, hf')"
    let ?code = "fst (generate_unique hf rndf 0 '''')"
    from bad have taken: "?code \<in> set (keys (sessions hf))"
      and e: "e = ErrNoUniqueRoomCode" and hf': "hf' = hf"
      by (auto simp: CreateGame_def Let_def map_of_keys split: if_splits)
    note s = attempts_made_spec [of hf rndf]
    from s taken have n: "attempts_made hf rndf = 10" by blast
    from s have code: "?code = generateRoomCode hf (rndf (attempts_made hf rndf - 1))" by blast
    have "generateRoomCode hf (rndf j) \<in> set (keys (sessions hf))" if "j < 10" for j
    proof (cases "j = 9")
      case True
      with code n taken show ?thesis by simp
    next
      case False
      with that n have "j < attempts_made hf rndf - 1" by simp
      with s show ?thesis by blast
    qed
    with e hf' n show "e = ErrNoUniqueRoomCode \<and> hf' = hf \<and> attempts_made hf rndf = 10
        \<and> (\<forall>j. j < 10 \<longrightarrow> generateRoomCode hf (rndf j) \<in> set (keys (sessions hf)))"
      by blast
  qed
qed

text \<open>The theorem at a hub with one room: a success at the second attempt, and a failure.\<close>

lemma hub_one_sessions: "sessions hub_one = [(''AAAAAA'', NewGame ''AAAAAA'' 0)]"
  and hub_one_length: "roomCodeLength hub_one = 6"
  by (simp_all add: hub_one_def)

lemma rnd_second_codes:
  "generateRoomCode hub_one (rnd_second 0) = ''AAAAAA''"
  "k \<noteq> 0 \<Longrightarrow> generateRoomCode hub_one (rnd_second k) = ''BBBBBB''"
  by (simp_all add: generateRoomCode_def hub_one_length rnd_second_def RoomCodeChars_def upt_rec)

lemma rnd_zero_codes: "generateRoomCode hub_one (rnd_zero k) = ''AAAAAA''"
  by (simp add: generateRoomCode_def hub_one_length rnd_zero_def RoomCodeChars_def upt_rec)

lemma generate_unique_second: "generate_unique hub_one rnd_second 0 [] = (''BBBBBB'', 2)"
  by (simp add: generate_unique_unfold rnd_second_codes hub_one_sessions)

lemma generate_unique_zero: "generate_unique hub_one rnd_zero 0 [] = (''AAAAAA'', 10)"
  by (simp add: generate_unique_unfold generate_unique_stop rnd_zero_codes hub_one_sessions)

theorem CreateGame_room_code_witness:
  "CreateGame hub_one rnd_second 7 =
     (Inr (NewGame ''BBBBBB'' 7),
      hub_one\<lparr>sessions := sessions hub_one @ [(''BBBBBB'', NewGame ''BBBBBB'' 7)]\<rparr>)
   \<and> attempts_made hub_one rnd_second = 2
   \<and> generateRoomCode hub_one (rnd_second 0) \<in> set (keys (sessions hub_one))
   \<and> ''BBBBBB'' \<notin> set (keys (sessions hub_one))
   \<and> length ''BBBBBB'' = roomCodeLength hub_one
   \<and> set ''BBBBBB'' \<subseteq> set RoomCodeChars
   \<and> distinct (keys (sessions hub_one))
   \<and> distinct (keys (sessions hub_one @ [(''BBBBBB'', NewGame ''BBBBBB'' 7)]))
   \<and> CreateGame hub_one rnd_zero 7 = (Inl ErrNoUniqueRoomCode, hub_one)
   \<and> attempts_made hub_one rnd_zero = 10
   \<and> generateRoomCode hub_one (rnd_zero 9) \<in> set (keys (sessions hub_one))"
proof -
  let ?g = "NewGame ''BBBBBB'' 7"
  let ?h' = "hub_one\<lparr>sessions := sessions hub_one @ [(''BBBBBB'', ?g)]\<rparr>"
  have ok: "CreateGame hub_one rnd_second 7 = (Inr ?g, ?h')"
    by (simp add: CreateGame_def Let_def generate_unique_second hub_one_sessions)
  have bad: "CreateGame hub_one rnd_zero 7 = (Inl ErrNoUniqueRoomCode, hub_one)"
    by (simp add: CreateGame_def Let_def generate_unique_zero hub_one_sessions)
  have am: "attempts_made hub_one rnd_second = 2"
    by (simp add: attempts_made_def generate_unique_second)
  have gid: "GameID ?g = ''BBBBBB''" by (simp add: NewGame_def)
  have d: "distinct (keys (sessions hub_one))" by (simp add: keys_def hub_one_sessions)
  have j0: "(0::nat) < attempts_made hub_one rnd_second - 1" by (simp add: am)
  have j9: "(9::nat) < 10" by simp
  note T = CreateGame_room_code [of hub_one "rnd_second 0" rnd_second 7 ?g ?h' hub_one
      rnd_zero 7 ErrNoUniqueRoomCode hub_one]
  from T j0 have c1: "generateRoomCode hub_one (rnd_second 0) \<in> set (keys (sessions hub_one))"
    by blast
  from T ok have c2: "GameID ?g \<notin> set (keys (sessions hub_one))"
    and c3: "length (GameID ?g) = roomCodeLength hub_one"
    and c4: "set (GameID ?g) \<subseteq> set RoomCodeChars"
    by blast+
  from T ok d have c5: "distinct (keys (sessions ?h'))" by blast
  from T bad have c6: "attempts_made hub_one rnd_zero = 10" by blast
  from T bad j9 have c7: "generateRoomCode hub_one (rnd_zero 9) \<in> set (keys (sessions hub_one))"
    by blast
  from c5 have c5': "distinct (keys (sessions hub_one @ [(''BBBBBB'', ?g)]))" by simp
  from ok am c1 c2 c3 c4 d c5' bad c6 c7 show ?thesis
    unfolding gid by blast
qed

section \<open>C6: the turn order and the submissions\<close>

lemma swap_at_mset: "i < length xs \<Longrightarrow> j < length xs \<Longrightarrow> mset (swap_at i j xs) = mset xs"
  unfolding swap_at_def by (rule mset_swap)

lemma swap_at_length: "length (swap_at i j xs) = length xs"
  by (simp add: swap_at_def)

lemma Shuffle_from_length: "length (Shuffle_from i rnd xs) = length xs"
  by (induction i arbitrary: xs) (simp_all add: swap_at_length)

lemma Shuffle_from_mset: "i < length xs \<Longrightarrow> mset (Shuffle_from i rnd xs) = mset xs"
proof (induction i arbitrary: xs)
  case 0
  then show ?case by simp
next
  case (Suc i)
  have j: "rnd (Suc i) mod (Suc i + 1) < length xs"
    using Suc.prems mod_less_divisor [of "Suc i + 1" "rnd (Suc i)"] by linarith
  from Suc.prems have "i < length (swap_at (Suc i) (rnd (Suc i) mod (Suc i + 1)) xs)"
    by (simp add: swap_at_length)
  from Suc.IH [OF this] Suc.prems j show ?case
    by (simp add: swap_at_mset)
qed

lemma Shuffle_mset: "mset (Shuffle (length xs) rnd xs) = mset xs"
proof (cases xs)
  case Nil
  then show ?thesis by (simp add: Shuffle_def)
next
  case (Cons x ys)
  then have "length xs - 1 < length xs" by simp
  then show ?thesis unfolding Shuffle_def by (rule Shuffle_from_mset)
qed

lemma NewRound_Some:
  assumes "NewRound number secretWord playerIDs shuf pick now = Some r"
  shows "playerIDs \<noteq> []"
    and "PlayerOrder r = Shuffle (length playerIDs) shuf playerIDs"
    and "ImposterID r = playerIDs ! (pick mod length playerIDs)"
    and "Submissions r = []" and "Votes r = []" and "CurrentPlayerIdx r = 0"
    and "Number r = number" and "SecretWord r = secretWord"
  using assms
  by (auto simp: NewRound_def Intn_def index_def Let_def nat_mod_distrib zmod_int
      split: if_splits option.splits)

lemma NewRound_total:
  "playerIDs \<noteq> [] \<Longrightarrow> \<exists>r. NewRound number secretWord playerIDs shuf pick now = Some r"
  by (auto simp: NewRound_def Intn_def index_def Let_def split: option.splits)

lemma NewRound_order:
  assumes "NewRound number secretWord playerIDs shuf pick now = Some r"
  shows "mset (PlayerOrder r) = mset playerIDs"
    and "ImposterID r \<in> set playerIDs"
proof -
  from NewRound_Some(2) [OF assms] show "mset (PlayerOrder r) = mset playerIDs"
    by (simp add: Shuffle_mset)
  from NewRound_Some(1) [OF assms] have "pick mod length playerIDs < length playerIDs"
    by simp
  with NewRound_Some(3) [OF assms] show "ImposterID r \<in> set playerIDs"
    by simp
qed

lemma AddSubmission_cases:
  assumes "AddSubmission r p nick w t = Some (err, r')"
  shows "(err = Some ErrNotYourTurn \<and> r' = r \<and> GetCurrentPlayerID r \<noteq> Some p)
         \<or> (err = None \<and> GetCurrentPlayerID r = Some p
             \<and> r' = r\<lparr>Submissions := Submissions r
                          @ [NewSubmission p nick w (int (length (Submissions r)) + 1) t],
                        CurrentPlayerIdx := CurrentPlayerIdx r + 1\<rparr>)"
  using assms
  by (auto simp: AddSubmission_def IsPlayerTurn_def Let_def split: option.splits bool.splits)


lemma AddSubmission_turn:
  assumes "AddSubmission r p nick w t = Some (None, r')" and "p \<noteq> ''''"
  shows "index (PlayerOrder r) (CurrentPlayerIdx r) = Some p"
proof -
  from AddSubmission_cases [OF assms(1)] have "GetCurrentPlayerID r = Some p" by auto
  with assms(2) show ?thesis
    by (auto simp: GetCurrentPlayerID_def split: if_splits)
qed















section \<open>C1: one imposter\<close>

lemma keys_for_each_value: "keys (for_each_value f m) = keys m"
  by (induction m) (auto simp: keys_def for_each_value_def)

lemma map_of_for_each_value:
  "map_of (for_each_value f m) k = map_option (f k) (map_of m k)"
  by (induction m) (auto simp: for_each_value_def)

lemma range_map_keys:
  "set order \<subseteq> set (keys m) \<Longrightarrow> map fst (range_map m order) = order"
proof (induction order)
  case Nil
  then show ?case by (simp add: range_map_def map_filter_simps)
next
  case (Cons k order)
  then have "k \<in> set (keys m)" by simp
  then obtain v where "map_of m k = Some v"
    using map_of_keys [of m k] by (cases "map_of m k") auto
  with Cons show ?case by (simp add: range_map_def map_filter_simps)
qed

lemma GetPlayerIDs_order:
  "iteration_order (Players g) order \<Longrightarrow> GetPlayerIDs g order = order"
  by (simp add: GetPlayerIDs_def iteration_order_def range_map_keys)

lemma StartRound_success:
  assumes "StartRound g secretWord order shuf pick now = Some (None, g')"
  shows "\<exists>r. NewRound (int (length (RoundHistory g)) + 1) secretWord
               (map fst (range_map (for_each_value (\<lambda>_. ResetForNewRound) (Players g)) order))
               shuf pick now = Some r
           \<and> g' = g\<lparr>Players :=
                      for_each_value
                        (\<lambda>playerID player.
                           if playerID = ImposterID r then player\<lparr>Role := RoleImposter\<rparr>
                           else player\<lparr>Role := RoleVilek\<rparr>)
                        (for_each_value (\<lambda>_. ResetForNewRound) (Players g)),
                    CurrentRound := Some r, Phase := PhaseRoleAssignment\<rparr>
           \<and> (Phase g = PhaseLobby \<or> Phase g = PhaseResults)
           \<and> MinPlayers (Settings g) \<le> int (length (Players g))"
  using assms
  by (auto simp: StartRound_def GetPlayerIDs_def Let_def split: if_splits option.splits)

lemma filter_key_once: "distinct ks \<Longrightarrow> x \<in> set ks \<Longrightarrow> length (filter (\<lambda>k. k = x) ks) = 1"
proof (induction ks)
  case Nil
  then show ?case by simp
next
  case (Cons k ks)
  show ?case
  proof (cases "k = x")
    case True
    with Cons.prems have "x \<notin> set ks" by simp
    then have "filter (\<lambda>k. k = x) ks = []" by (auto simp: filter_empty_conv)
    with True show ?thesis by simp
  next
    case False
    with Cons show ?thesis by simp
  qed
qed

lemma assigned_players:
  fixes m :: "Player gomap" and imp :: string
  defines "m' \<equiv>
    for_each_value
      (\<lambda>playerID player.
         if playerID = imp then player\<lparr>Role := RoleImposter\<rparr> else player\<lparr>Role := RoleVilek\<rparr>)
      (for_each_value (\<lambda>_. ResetForNewRound) m)"
  shows "keys m' = keys m"
    and "players_wf m \<Longrightarrow> players_wf m'"
    and "\<forall>(k, p) \<in> set m'. Role p = (if k = imp then RoleImposter else RoleVilek)
           \<and> \<not> HasVoted p \<and> \<not> HasSubmitted p"
    and "map (\<lambda>(k, p). Role p = RoleImposter) m' = map (\<lambda>k. k = imp) (keys m)"
proof -
  show k: "keys m' = keys m" by (simp add: m'_def keys_for_each_value)
  have "list_all (\<lambda>(k, p). ID p = k) m \<Longrightarrow> list_all (\<lambda>(k, p). ID p = k) m'"
    unfolding m'_def
    by (induction m) (auto simp: for_each_value_def ResetForNewRound_def)
  with k show "players_wf m'" if "players_wf m"
    using that by (simp add: players_wf_def)
  show "\<forall>(k, p) \<in> set m'. Role p = (if k = imp then RoleImposter else RoleVilek)
           \<and> \<not> HasVoted p \<and> \<not> HasSubmitted p"
    unfolding m'_def
    by (auto simp: for_each_value_def ResetForNewRound_def split: if_splits)
  show "map (\<lambda>(k, p). Role p = RoleImposter) m' = map (\<lambda>k. k = imp) (keys m)"
    unfolding m'_def using role_distinct
    by (induction m) (auto simp: for_each_value_def keys_def split: if_splits)
qed

lemma one_imposter:
  fixes m :: "Player gomap" and imp :: string
  defines "m' \<equiv>
    for_each_value
      (\<lambda>playerID player.
         if playerID = imp then player\<lparr>Role := RoleImposter\<rparr> else player\<lparr>Role := RoleVilek\<rparr>)
      (for_each_value (\<lambda>_. ResetForNewRound) m)"
  assumes "distinct (keys m)" and "imp \<in> set (keys m)"
  shows "length (filter (\<lambda>(k, p). Role p = RoleImposter) m') = 1"
proof -
  have "length (filter (\<lambda>(k, p). Role p = RoleImposter) m')
          = length (filter id (map (\<lambda>(k, p). Role p = RoleImposter) m'))"
    by (simp add: filter_map comp_def case_prod_unfold)
  also have "\<dots> = length (filter id (map (\<lambda>k. k = imp) (keys m)))"
    unfolding m'_def by (simp only: assigned_players(4))
  also have "\<dots> = length (filter (\<lambda>k. k = imp) (keys m))"
    by (simp add: filter_map comp_def)
  also from assms(2,3) have "\<dots> = 1" by (rule filter_key_once)
  finally show ?thesis .
qed

text \<open>
  C1.  After a successful \<open>StartRound\<close> the game has a current round whose turn order is
  a permutation of the ids of the game's players and whose \<open>ImposterID\<close> is one of them;
  the players are the same as before; exactly one of them has the role Imposter; the player
  whose id is the round's \<open>ImposterID\<close> has the role Imposter and every other player has
  the role Vilek; and the phase is ROLE_ASSIGNMENT.  The player map is one that
  \<open>AddPlayer\<close> builds (unique keys, each the id of its player), and \<open>order\<close> is an order
  in which the runtime may range over it.
\<close>

theorem StartRound_roles:
  assumes "StartRound g secretWord order shuf pick now = Some (None, g')"
    and "players_wf (Players g)" and "iteration_order (Players g) order"
  shows "\<exists>r. CurrentRound g' = Some r
           \<and> mset (PlayerOrder r) = mset (keys (Players g))
           \<and> ImposterID r \<in> set (PlayerOrder r)
           \<and> keys (Players g') = keys (Players g)
           \<and> players_wf (Players g')
           \<and> length (filter (\<lambda>(k, p). Role p = RoleImposter) (Players g')) = 1
           \<and> (\<forall>(k, p) \<in> set (Players g').
                 (ID p = ImposterID r \<longrightarrow> Role p = RoleImposter)
                 \<and> (ID p \<noteq> ImposterID r \<longrightarrow> Role p = RoleVilek))
           \<and> Phase g' = PhaseRoleAssignment"
proof -
  let ?m1 = "for_each_value (\<lambda>_. ResetForNewRound) (Players g)"
  from StartRound_success [OF assms(1)] obtain r
    where new: "NewRound (int (length (RoundHistory g)) + 1) secretWord
               (map fst (range_map ?m1 order)) shuf pick now = Some r"
      and g': "g' = g\<lparr>Players :=
                      for_each_value
                        (\<lambda>playerID player.
                           if playerID = ImposterID r then player\<lparr>Role := RoleImposter\<rparr>
                           else player\<lparr>Role := RoleVilek\<rparr>)
                        ?m1,
                    CurrentRound := Some r, Phase := PhaseRoleAssignment\<rparr>"
    by blast
  from assms(2) have dk: "distinct (keys (Players g))" by (simp add: players_wf_def)
  from assms(3) have do: "distinct order" and so: "set order = set (keys (Players g))"
    by (simp_all add: iteration_order_def)
  from so have "set order \<subseteq> set (keys ?m1)" by (simp add: keys_for_each_value)
  then have ids: "map fst (range_map ?m1 order) = order" by (rule range_map_keys)
  from do dk so have mo: "mset order = mset (keys (Players g))"
    by (simp add: set_eq_iff_mset_eq_distinct)
  from NewRound_order [OF new] ids
  have po: "mset (PlayerOrder r) = mset order" and imp: "ImposterID r \<in> set order"
    by simp_all
  from po mo have c2: "mset (PlayerOrder r) = mset (keys (Players g))" by simp
  from po imp have c3: "ImposterID r \<in> set (PlayerOrder r)"
    using mset_eq_setD by blast
  from g' have c1: "CurrentRound g' = Some r" and c8: "Phase g' = PhaseRoleAssignment"
    by simp_all
  from g' have c4: "keys (Players g') = keys (Players g)"
    by (simp add: assigned_players(1))
  from g' assms(2) have c5: "players_wf (Players g')"
    by (simp add: assigned_players(2))
  from imp so have "ImposterID r \<in> set (keys (Players g))" by simp
  with dk g' have c6: "length (filter (\<lambda>(k, p). Role p = RoleImposter) (Players g')) = 1"
    by (simp add: one_imposter)
  have c7: "\<forall>(k, p) \<in> set (Players g').
                 (ID p = ImposterID r \<longrightarrow> Role p = RoleImposter)
                 \<and> (ID p \<noteq> ImposterID r \<longrightarrow> Role p = RoleVilek)"
  proof (clarify, intro conjI impI)
    fix k p
    assume kp: "(k, p) \<in> set (Players g')"
    with c5 have "ID p = k" by (auto simp: players_wf_def list_all_iff)
    moreover from kp g' assigned_players(3) [of "ImposterID r" "Players g"]
    have "Role p = (if k = ImposterID r then RoleImposter else RoleVilek)" by auto
    ultimately show "ID p = ImposterID r \<Longrightarrow> Role p = RoleImposter"
      and "ID p \<noteq> ImposterID r \<Longrightarrow> Role p = RoleVilek"
      by simp_all
  qed
  from c1 c2 c3 c4 c5 c6 c7 c8 show ?thesis by blast
qed

text \<open>The theorem at the game of four players.\<close>

lemma game_lobby_eq:
  "game_lobby =
     \<lparr>GameID = ''ROOM01'', HostID = ''a'',
      Players = [(''a'', NewPlayer ''a'' ''Al'' 1), (''b'', NewPlayer ''b'' ''Bo'' 2),
                 (''c'', NewPlayer ''c'' ''Cy'' 3), (''d'', NewPlayer ''d'' ''Di'' 4)],
      CurrentRound = None, RoundHistory = [], Phase = PhaseLobby,
      Settings = DefaultGameSettings, CreatedAt = 0\<rparr>"
  by (simp add: game_lobby_def AddPlayer_def NewGame_def DefaultGameSettings_def Let_def)

lemma game_lobby_wf:
  "players_wf (Players game_lobby)"
  "iteration_order (Players game_lobby) [''a'', ''b'', ''c'', ''d'']"
  by (auto simp: game_lobby_eq players_wf_def iteration_order_def keys_def NewPlayer_def)

lemma shuffle_four:
  "Shuffle (Suc (Suc (Suc (Suc 0)))) (\<lambda>_. 0) [''a'', ''b'', ''c'', ''d''] =
     [''b'', ''c'', ''d'', ''a'']"
  by (simp add: Shuffle_def swap_at_def)

lemma game_lobby_start:
  "StartRound game_lobby ''neon'' [''a'', ''b'', ''c'', ''d''] (\<lambda>_. 0) 1 5 = Some (None, game_roles)"
  using phase_distinct
  by (simp add: game_lobby_eq game_roles_def players_roles_def round_four_def StartRound_def
      DefaultGameSettings_def GetPlayerIDs_def range_map_def map_filter_simps
      for_each_value_def ResetForNewRound_def NewPlayer_def NewRound_def shuffle_four
      Intn_def index_def Let_def)

theorem StartRound_roles_witness:
  "StartRound game_lobby ''neon'' [''a'', ''b'', ''c'', ''d''] (\<lambda>_. 0) 1 5 = Some (None, game_roles)
   \<and> players_wf (Players game_lobby)
   \<and> iteration_order (Players game_lobby) [''a'', ''b'', ''c'', ''d'']
   \<and> CurrentRound game_roles = Some round_four
   \<and> ImposterID round_four = ''b''
   \<and> map (\<lambda>(k, p). (ID p, Role p)) (Players game_roles) =
        [(''a'', RoleVilek), (''b'', RoleImposter), (''c'', RoleVilek), (''d'', RoleVilek)]
   \<and> length (filter (\<lambda>(k, p). Role p = RoleImposter) (Players game_roles)) = 1
   \<and> mset (PlayerOrder round_four) = mset (keys (Players game_lobby))
   \<and> Phase game_roles = PhaseRoleAssignment"
proof -
  from StartRound_roles [OF game_lobby_start game_lobby_wf] obtain r
    where T: "CurrentRound game_roles = Some r
           \<and> mset (PlayerOrder r) = mset (keys (Players game_lobby))
           \<and> ImposterID r \<in> set (PlayerOrder r)
           \<and> keys (Players game_roles) = keys (Players game_lobby)
           \<and> players_wf (Players game_roles)
           \<and> length (filter (\<lambda>(k, p). Role p = RoleImposter) (Players game_roles)) = 1
           \<and> (\<forall>(k, p) \<in> set (Players game_roles).
                 (ID p = ImposterID r \<longrightarrow> Role p = RoleImposter)
                 \<and> (ID p \<noteq> ImposterID r \<longrightarrow> Role p = RoleVilek))
           \<and> Phase game_roles = PhaseRoleAssignment"
    by (rule exE)
  from T have r: "CurrentRound game_roles = Some r" by (elim conjE)
  from T have m: "mset (PlayerOrder r) = mset (keys (Players game_lobby))" by (elim conjE)
  from T have one: "length (filter (\<lambda>(k, p). Role p = RoleImposter) (Players game_roles)) = 1"
    by (elim conjE)
  from T have ph: "Phase game_roles = PhaseRoleAssignment" by (elim conjE)
  have cr: "CurrentRound game_roles = Some round_four" by (simp add: game_roles_def)
  from r have eq: "r = round_four" unfolding cr by simp
  have imp: "ImposterID round_four = ''b''" by (simp add: round_four_def)
  have roles: "map (\<lambda>(k, p). (ID p, Role p)) (Players game_roles) =
        [(''a'', RoleVilek), (''b'', RoleImposter), (''c'', RoleVilek), (''d'', RoleVilek)]"
    by (simp add: game_roles_def players_roles_def NewPlayer_def)
  note m' = m [unfolded eq]
  show ?thesis
    by (intro conjI) (fact game_lobby_start game_lobby_wf cr imp roles one m' ph)+
qed

section \<open>C3: the host is a player\<close>

lemma game_one_eq:
  "game_one = (NewGame ''ROOM01'' 0)\<lparr>HostID := ''a'', Players := [(''a'', NewPlayer ''a'' ''Al'' 1)]\<rparr>"
  by (simp add: game_one_def AddPlayer_def NewGame_def DefaultGameSettings_def Let_def)

lemma game_left_eq:
  "RemovePlayer game_one ''a'' [] = (None, (NewGame ''ROOM01'' 0)\<lparr>HostID := ''a''\<rparr>)"
  by (simp add: game_one_eq RemovePlayer_def NewGame_def Let_def)

lemma game_rejoined_eq:
  "AddPlayer game_left ''b'' ''Bo'' 2 =
     (Inr (NewPlayer ''b'' ''Bo'' 2),
      (NewGame ''ROOM01'' 0)\<lparr>HostID := ''a'', Players := [(''b'', NewPlayer ''b'' ''Bo'' 2)]\<rparr>)"
  by (simp add: game_left_def game_left_eq AddPlayer_def NewGame_def DefaultGameSettings_def
      Let_def)

text \<open>
  C3.  The claim is that after every operation the host id is empty, with no players, or
  the id of a player.  The code does not keep it: \<open>RemovePlayer\<close> picks a new host only
  while players remain, and leaves \<open>HostID\<close> as it is when the host was the last player.
  The first player of a new room joins and leaves: the map is empty and the host id is still
  \<open>a\<close>.  A second player then joins: \<open>AddPlayer\<close> makes the first player host only
  when the host id is empty, so the host id stays \<open>a\<close>, which is no player, and the only
  player \<open>b\<close> is not the host.
\<close>

theorem RemovePlayer_last_player_leaves_host:
  "HostID game_one = ''a'' \<and> keys (Players game_one) = [''a'']
   \<and> iteration_order (AList.delete ''a'' (Players game_one)) []
   \<and> fst (RemovePlayer game_one ''a'' []) = None
   \<and> Players game_left = [] \<and> HostID game_left = ''a''
   \<and> fst (AddPlayer game_left ''b'' ''Bo'' 2) = Inr (NewPlayer ''b'' ''Bo'' 2)
   \<and> keys (Players game_rejoined) = [''b'']
   \<and> HostID game_rejoined = ''a''
   \<and> HostID game_rejoined \<notin> set (keys (Players game_rejoined))
   \<and> \<not> IsHost game_rejoined ''b''"
proof -
  have f1: "HostID game_one = ''a''" "keys (Players game_one) = [''a'']"
    "iteration_order (AList.delete ''a'' (Players game_one)) []"
    by (simp_all add: game_one_eq keys_def iteration_order_def NewGame_def)
  have f2: "fst (RemovePlayer game_one ''a'' []) = None"
    by (simp add: game_left_eq)
  have f3: "Players game_left = []" "HostID game_left = ''a''"
    by (simp_all add: game_left_def game_left_eq NewGame_def)
  have f4: "fst (AddPlayer game_left ''b'' ''Bo'' 2) = Inr (NewPlayer ''b'' ''Bo'' 2)"
    by (simp add: game_rejoined_eq)
  have f5: "keys (Players game_rejoined) = [''b'']" "HostID game_rejoined = ''a''"
    "HostID game_rejoined \<notin> set (keys (Players game_rejoined))"
    "\<not> IsHost game_rejoined ''b''"
    by (simp_all add: game_rejoined_def game_rejoined_eq keys_def IsHost_def NewGame_def)
  show ?thesis by (intro conjI) (fact f1 f2 f3 f4 f5)+
qed

section \<open>C5: submitting a word\<close>

lemma SubmitWord_result:
  assumes "Phase g = PhaseSubmission" and "CurrentRound g = Some r"
  shows "SubmitWord g playerID word now =
     (if TrimSpace word = '''' then Some (Some ErrEmptyWord, g)
      else case map_of (Players g) playerID of
        None \<Rightarrow> Some (Some ErrPlayerNotFound, g)
      | Some player \<Rightarrow>
          if HasSubmitted player then Some (Some ErrAlreadySubmitted, g)
          else (case GetCurrentPlayerID r of
             None \<Rightarrow> None
           | Some cur \<Rightarrow>
               if cur = playerID
               then Some (None,
                      g\<lparr>CurrentRound :=
                          Some (r\<lparr>Submissions := Submissions r
                                    @ [NewSubmission playerID (Nickname player) (TrimSpace word)
                                         (int (length (Submissions r)) + 1) now],
                                  CurrentPlayerIdx := CurrentPlayerIdx r + 1\<rparr>),
                        Players := AList.update playerID (player\<lparr>HasSubmitted := True\<rparr>)
                                     (Players g)\<rparr>)
               else Some (Some ErrNotYourTurn, g)))"
  using assms
  by (auto simp: SubmitWord_def GetPlayer_def AddSubmission_def IsPlayerTurn_def Let_def
      split: option.splits)

text \<open>
  C5 (as amended).  In the SUBMISSION phase with a current round, \<open>SubmitWord\<close> succeeds
  only for the player whose turn it is.  Every other caller receives an error, decided by
  the checks in the order of the code: \<open>ErrEmptyWord\<close> when the trimmed word is empty,
  else \<open>ErrPlayerNotFound\<close> when the caller is not a player, else
  \<open>ErrAlreadySubmitted\<close> when the caller has submitted, else \<open>ErrNotYourTurn\<close>.
  Whenever an error is returned the game is unchanged, and with it the round's
  submissions, the turn index and the flags of all players.  The call returns on every
  round whose index is not negative.
\<close>

theorem SubmitWord_turn:
  assumes "Phase g = PhaseSubmission" and "CurrentRound g = Some r"
  shows "(SubmitWord g playerID word now = Some (None, g') \<longrightarrow>
            GetCurrentPlayerID r = Some playerID)
       \<and> (SubmitWord g playerID word now = Some (err, g')
            \<and> GetCurrentPlayerID r \<noteq> Some playerID \<longrightarrow>
            err = Some (if TrimSpace word = '''' then ErrEmptyWord
                        else case map_of (Players g) playerID of
                          None \<Rightarrow> ErrPlayerNotFound
                        | Some player \<Rightarrow>
                            if HasSubmitted player then ErrAlreadySubmitted
                            else ErrNotYourTurn))
       \<and> (SubmitWord g playerID word now = Some (Some e, g') \<longrightarrow> g' = g)
       \<and> (0 \<le> CurrentPlayerIdx r \<longrightarrow> SubmitWord g playerID word now \<noteq> None)"
proof (intro conjI impI)
  note R = SubmitWord_result [OF assms, of playerID word now]
  {
    assume "SubmitWord g playerID word now = Some (None, g')"
    with R show "GetCurrentPlayerID r = Some playerID"
      by (auto split: if_splits option.splits)
  next
    assume "SubmitWord g playerID word now = Some (err, g')
            \<and> GetCurrentPlayerID r \<noteq> Some playerID"
    with R show "err = Some (if TrimSpace word = '''' then ErrEmptyWord
                        else case map_of (Players g) playerID of
                          None \<Rightarrow> ErrPlayerNotFound
                        | Some player \<Rightarrow>
                            if HasSubmitted player then ErrAlreadySubmitted
                            else ErrNotYourTurn)"
      by (auto split: if_splits option.splits)
  next
    assume "SubmitWord g playerID word now = Some (Some e, g')"
    with R show "g' = g"
      by (auto split: if_splits option.splits)
  next
    assume "0 \<le> CurrentPlayerIdx r"
    then have "\<exists>c. GetCurrentPlayerID r = Some c"
      by (simp add: GetCurrentPlayerID_def index_def)
    then obtain c where "GetCurrentPlayerID r = Some c" ..
    with R show "SubmitWord g playerID word now \<noteq> None"
      by (auto split: if_splits option.splits)
  }
qed

text \<open>The theorem at the game of four players: the player in turn, and another player.\<close>

lemma TrimSpace_examples:
  "TrimSpace '' light '' = ''light''"
  "TrimSpace ''glow'' = ''glow''"
  "TrimSpace ''  '' = ''''"
  by (simp_all add: TrimSpace_def TrimLeft.simps TrimRight.simps leading_space_def
      trailing_space_def spaceRunes_def)

lemma game_sub_eq:
  "TransitionToSubmission game_roles = (None, game_roles\<lparr>Phase := PhaseSubmission\<rparr>)"
  "game_sub = game_roles\<lparr>Phase := PhaseSubmission\<rparr>"
  by (simp_all add: game_sub_def TransitionToSubmission_def game_roles_def)

lemma game_sub_facts:
  "Phase game_sub = PhaseSubmission"
  "CurrentRound game_sub = Some round_four"
  "Players game_sub = players_roles"
  by (simp_all add: game_sub_eq game_roles_def)

lemma round_four_current: "GetCurrentPlayerID round_four = Some ''b''"
  "0 \<le> CurrentPlayerIdx round_four"
  by (simp_all add: GetCurrentPlayerID_def index_def round_four_def)

lemma players_roles_lookup:
  "map_of players_roles ''b'' = Some ((NewPlayer ''b'' ''Bo'' 2)\<lparr>Role := RoleImposter\<rparr>)"
  "map_of players_roles ''c'' = Some ((NewPlayer ''c'' ''Cy'' 3)\<lparr>Role := RoleVilek\<rparr>)"
  "map_of players_roles ''x'' = None"
  by (simp_all add: players_roles_def)

lemma game_sub_first:
  "SubmitWord game_sub ''b'' '' light '' 6 =
     Some (None,
       game_sub\<lparr>CurrentRound :=
           Some (round_four\<lparr>Submissions := [NewSubmission ''b'' ''Bo'' ''light'' 1 6],
                            CurrentPlayerIdx := 1\<rparr>),
         Players := AList.update ''b''
           ((NewPlayer ''b'' ''Bo'' 2)\<lparr>Role := RoleImposter, HasSubmitted := True\<rparr>)
           players_roles\<rparr>)"
  by (simp add: SubmitWord_result [OF game_sub_facts(1,2)] TrimSpace_examples game_sub_facts
      players_roles_lookup round_four_current NewPlayer_def)
     (simp add: round_four_def)

lemma game_sub_other:
  "SubmitWord game_sub ''c'' ''glow'' 6 = Some (Some ErrNotYourTurn, game_sub)"
  "SubmitWord game_sub ''c'' ''  '' 6 = Some (Some ErrEmptyWord, game_sub)"
  "SubmitWord game_sub ''x'' ''glow'' 6 = Some (Some ErrPlayerNotFound, game_sub)"
  by (simp_all add: SubmitWord_result [OF game_sub_facts(1,2)] TrimSpace_examples game_sub_facts
      players_roles_lookup round_four_current NewPlayer_def)

theorem SubmitWord_turn_witness:
  "Phase game_sub = PhaseSubmission \<and> CurrentRound game_sub = Some round_four
   \<and> SubmitWord game_sub ''b'' '' light '' 6 =
       Some (None,
         game_sub\<lparr>CurrentRound :=
             Some (round_four\<lparr>Submissions := [NewSubmission ''b'' ''Bo'' ''light'' 1 6],
                              CurrentPlayerIdx := 1\<rparr>),
           Players := AList.update ''b''
             ((NewPlayer ''b'' ''Bo'' 2)\<lparr>Role := RoleImposter, HasSubmitted := True\<rparr>)
             players_roles\<rparr>)
   \<and> GetCurrentPlayerID round_four = Some ''b''
   \<and> GetCurrentPlayerID round_four \<noteq> Some ''c''
   \<and> SubmitWord game_sub ''c'' ''glow'' 6 = Some (Some ErrNotYourTurn, game_sub)
   \<and> 0 \<le> CurrentPlayerIdx round_four
   \<and> SubmitWord game_sub ''c'' ''glow'' 6 \<noteq> None"
proof -
  let ?g1 = "game_sub\<lparr>CurrentRound :=
             Some (round_four\<lparr>Submissions := [NewSubmission ''b'' ''Bo'' ''light'' 1 6],
                              CurrentPlayerIdx := 1\<rparr>),
           Players := AList.update ''b''
             ((NewPlayer ''b'' ''Bo'' 2)\<lparr>Role := RoleImposter, HasSubmitted := True\<rparr>)
             players_roles\<rparr>"
  note Tb = SubmitWord_turn [OF game_sub_facts(1,2), where playerID = "''b''"
      and word = "'' light ''" and now = 6 and g' = ?g1 and err = None
      and e = ErrNotYourTurn]
  note Tc = SubmitWord_turn [OF game_sub_facts(1,2), where playerID = "''c''"
      and word = "''glow''" and now = 6 and g' = game_sub and err = "Some ErrNotYourTurn"
      and e = ErrNotYourTurn]
  from mp [OF Tb [THEN conjunct1] game_sub_first]
  have c1: "GetCurrentPlayerID round_four = Some ''b''" .
  then have c2: "GetCurrentPlayerID round_four \<noteq> Some ''c''" by simp
  from mp [OF Tc [THEN conjunct2, THEN conjunct2, THEN conjunct2] round_four_current(2)]
  have c3: "SubmitWord game_sub ''c'' ''glow'' 6 \<noteq> None" .
  from mp [OF Tc [THEN conjunct2, THEN conjunct2, THEN conjunct1] game_sub_other(1)]
  have c4: "game_sub = game_sub" .
  from mp [OF Tc [THEN conjunct2, THEN conjunct1] conjI [OF game_sub_other(1) c2]]
  have c5: "Some ErrNotYourTurn =
      Some (if TrimSpace ''glow'' = '''' then ErrEmptyWord
            else case map_of (Players game_sub) ''c'' of
              None \<Rightarrow> ErrPlayerNotFound
            | Some player \<Rightarrow>
                if HasSubmitted player then ErrAlreadySubmitted else ErrNotYourTurn)" .
  show ?thesis
    by (intro conjI)
       (fact game_sub_facts game_sub_first c1 c2 game_sub_other(1) round_four_current(2) c3)+
qed

text \<open>
  The claim as first stated gives \<open>NotYourTurn\<close> to every caller but the one in turn.
  It is \<open>b\<close>'s turn; \<open>c\<close> submits a blank word and receives \<open>ErrEmptyWord\<close>, and
  a caller who is no player receives \<open>ErrPlayerNotFound\<close>.
\<close>

theorem SubmitWord_other_caller_counterexample:
  "Phase game_sub = PhaseSubmission \<and> CurrentRound game_sub = Some round_four
   \<and> GetCurrentPlayerID round_four = Some ''b''
   \<and> SubmitWord game_sub ''c'' ''  '' 6 = Some (Some ErrEmptyWord, game_sub)
   \<and> SubmitWord game_sub ''x'' ''glow'' 6 = Some (Some ErrPlayerNotFound, game_sub)"
  by (intro conjI) (fact game_sub_facts round_four_current(1) game_sub_other)+

section \<open>C7: casting a vote\<close>

lemma CastVote_result:
  assumes "Phase g = PhaseVoting" and "CurrentRound g = Some r"
  shows "CastVote g voterID targetID now =
     (if voterID = targetID then (Some ErrCannotVoteSelf, g)
      else case map_of (Players g) voterID of
        None \<Rightarrow> (Some ErrPlayerNotFound, g)
      | Some voter \<Rightarrow>
          if HasVoted voter then (Some ErrAlreadyVoted, g)
          else if map_of (Players g) targetID = None then (Some ErrInvalidTargetID, g)
          else if voterID \<in> set (map VoterID (Votes r)) then (Some ErrAlreadyVoted, g)
          else (None,
                g\<lparr>CurrentRound := Some (r\<lparr>Votes := Votes r @ [NewVote voterID targetID now]\<rparr>),
                  Players := AList.update voterID (voter\<lparr>HasVoted := True\<rparr>) (Players g)\<rparr>))"
  using assms
  by (auto simp: CastVote_def GetPlayer_def AddVote_def split: option.splits)

lemma map_of_update_other: "k \<noteq> k' \<Longrightarrow> map_of (AList.update k' v m) k = map_of m k"
  by (simp add: update_conv')

lemma map_of_update_same: "map_of (AList.update k v m) k = Some v"
  by (simp add: update_conv')

text \<open>
  C7 (as amended).  In the VOTING phase with a current round, \<open>CastVote\<close> decides its
  error by the checks in the order of the code: \<open>ErrCannotVoteSelf\<close> when voter and
  target are the same; else \<open>ErrPlayerNotFound\<close> when the voter is not a player; else
  \<open>ErrAlreadyVoted\<close> when the voter's \<open>HasVoted\<close> is set; else
  \<open>ErrInvalidTargetID\<close> when the target is not a player; else \<open>ErrAlreadyVoted\<close>
  when the voter is among the voters of the round.  Otherwise it succeeds: it appends
  exactly one vote, of the voter for the target, sets the voter's \<open>HasVoted\<close> and leaves
  every other player as it was.  On any error the game is unchanged, and with it the votes
  and the flags of all players.  If no voter occurs twice in the votes before the call,
  none does after it.
\<close>

theorem CastVote_checks:
  assumes "Phase g = PhaseVoting" and "CurrentRound g = Some r"
    and "CastVote g voterID targetID now = (err, g')"
  shows "err =
           (if voterID = targetID then Some ErrCannotVoteSelf
            else case map_of (Players g) voterID of
              None \<Rightarrow> Some ErrPlayerNotFound
            | Some voter \<Rightarrow>
                if HasVoted voter then Some ErrAlreadyVoted
                else if map_of (Players g) targetID = None then Some ErrInvalidTargetID
                else if voterID \<in> set (map VoterID (Votes r)) then Some ErrAlreadyVoted
                else None)
       \<and> (err \<noteq> None \<longrightarrow> g' = g)
       \<and> (err = None \<longrightarrow>
            (\<exists>voter.
               map_of (Players g) voterID = Some voter
               \<and> g' = g\<lparr>CurrentRound :=
                           Some (r\<lparr>Votes := Votes r @ [NewVote voterID targetID now]\<rparr>),
                         Players :=
                           AList.update voterID (voter\<lparr>HasVoted := True\<rparr>) (Players g)\<rparr>
               \<and> map_of (Players g') voterID = Some (voter\<lparr>HasVoted := True\<rparr>)
               \<and> (\<forall>k. k \<noteq> voterID \<longrightarrow> map_of (Players g') k = map_of (Players g) k)
               \<and> keys (Players g') = keys (Players g)))
       \<and> (distinct (map VoterID (Votes r)) \<longrightarrow>
            (\<exists>r'. CurrentRound g' = Some r' \<and> distinct (map VoterID (Votes r'))))"
proof -
  note R = CastVote_result [OF assms(1,2), of voterID targetID now]
  have e: "err =
           (if voterID = targetID then Some ErrCannotVoteSelf
            else case map_of (Players g) voterID of
              None \<Rightarrow> Some ErrPlayerNotFound
            | Some voter \<Rightarrow>
                if HasVoted voter then Some ErrAlreadyVoted
                else if map_of (Players g) targetID = None then Some ErrInvalidTargetID
                else if voterID \<in> set (map VoterID (Votes r)) then Some ErrAlreadyVoted
                else None)"
    using R assms(3) by (auto split: if_splits option.splits)
  have f: "g' = g" if "err \<noteq> None"
    using R assms(3) that by (auto split: if_splits option.splits)
  have s: "\<exists>voter.
               map_of (Players g) voterID = Some voter
               \<and> g' = g\<lparr>CurrentRound :=
                           Some (r\<lparr>Votes := Votes r @ [NewVote voterID targetID now]\<rparr>),
                         Players :=
                           AList.update voterID (voter\<lparr>HasVoted := True\<rparr>) (Players g)\<rparr>
               \<and> map_of (Players g') voterID = Some (voter\<lparr>HasVoted := True\<rparr>)
               \<and> (\<forall>k. k \<noteq> voterID \<longrightarrow> map_of (Players g') k = map_of (Players g) k)
               \<and> keys (Players g') = keys (Players g)"
    if "err = None"
  proof -
    from R assms(3) that obtain voter where v: "map_of (Players g) voterID = Some voter"
      and g': "g' = g\<lparr>CurrentRound :=
                           Some (r\<lparr>Votes := Votes r @ [NewVote voterID targetID now]\<rparr>),
                         Players :=
                           AList.update voterID (voter\<lparr>HasVoted := True\<rparr>) (Players g)\<rparr>"
      by (auto split: if_splits option.splits)
    from v have "voterID \<in> fst ` set (Players g)" by (rule map_of_SomeD [THEN imageI, of _ _ _ fst, simplified])
    then have "keys (AList.update voterID (voter\<lparr>HasVoted := True\<rparr>) (Players g)) = keys (Players g)"
      by (simp add: keys_def update_keys)
    with v g' show ?thesis
      by (auto simp: map_of_update_same map_of_update_other)
  qed
  have d: "\<exists>r'. CurrentRound g' = Some r' \<and> distinct (map VoterID (Votes r'))"
    if "distinct (map VoterID (Votes r))"
    using R assms(2,3) that by (auto simp: NewVote_def split: if_splits option.splits)
  from e f s d show ?thesis by blast
qed

text \<open>The theorem at the game of four players in the voting: a vote, and the errors.\<close>

lemma TrimSpace_words:
  "TrimSpace ''tube'' = ''tube''" "TrimSpace ''sign'' = ''sign''"
  by (simp_all add: TrimSpace_def TrimLeft.simps TrimRight.simps leading_space_def
      trailing_space_def spaceRunes_def)

lemma game_vote_eq:
  "game_vote = game_sub\<lparr>CurrentRound := Some round_vote, Players := players_vote,
                         Phase := PhaseVoting\<rparr>"
  using phase_distinct
  by (simp add: game_vote_def after_submit_def TransitionToVoting_def SubmitWord_def
      GetPlayer_def AddSubmission_def IsPlayerTurn_def GetCurrentPlayerID_def index_def
      TrimSpace_examples TrimSpace_words game_sub_eq game_roles_def players_roles_def
      round_four_def round_vote_def players_vote_def NewPlayer_def NewSubmission_def Let_def)

lemma game_vote_facts:
  "Phase game_vote = PhaseVoting"
  "CurrentRound game_vote = Some round_vote"
  "Players game_vote = players_vote"
  by (simp_all add: game_vote_eq)

lemma players_vote_lookup:
  "map_of players_vote ''a'' =
     Some ((NewPlayer ''a'' ''Al'' 1)\<lparr>Role := RoleVilek, HasSubmitted := True\<rparr>)"
  "map_of players_vote ''b'' =
     Some ((NewPlayer ''b'' ''Bo'' 2)\<lparr>Role := RoleImposter, HasSubmitted := True\<rparr>)"
  "map_of players_vote ''c'' =
     Some ((NewPlayer ''c'' ''Cy'' 3)\<lparr>Role := RoleVilek, HasSubmitted := True\<rparr>)"
  "map_of players_vote ''x'' = None"
  "map_of players_vote ''z'' = None"
  by (simp_all add: players_vote_def)

lemma round_vote_votes: "Votes round_vote = []"
  by (simp add: round_vote_def round_four_def)

lemma game_vote_cast:
  "CastVote game_vote ''a'' ''b'' 10 =
     (None,
      game_vote\<lparr>CurrentRound := Some (round_vote\<lparr>Votes := [NewVote ''a'' ''b'' 10]\<rparr>),
        Players := AList.update ''a''
          ((NewPlayer ''a'' ''Al'' 1)\<lparr>Role := RoleVilek, HasSubmitted := True, HasVoted := True\<rparr>)
          players_vote\<rparr>)"
  "CastVote game_vote ''a'' ''a'' 10 = (Some ErrCannotVoteSelf, game_vote)"
  "CastVote game_vote ''a'' ''z'' 10 = (Some ErrInvalidTargetID, game_vote)"
  "CastVote game_vote ''x'' ''z'' 10 = (Some ErrPlayerNotFound, game_vote)"
  by (simp_all add: CastVote_result [OF game_vote_facts(1,2)] game_vote_facts
      players_vote_lookup round_vote_votes NewPlayer_def)

lemma game_vote1_facts:
  "Phase game_vote1 = PhaseVoting"
  "CurrentRound game_vote1 = Some (round_vote\<lparr>Votes := [NewVote ''a'' ''b'' 10]\<rparr>)"
  "map_of (Players game_vote1) ''a'' =
     Some ((NewPlayer ''a'' ''Al'' 1)\<lparr>Role := RoleVilek, HasSubmitted := True, HasVoted := True\<rparr>)"
  by (simp_all add: game_vote1_def game_vote_cast(1) game_vote_facts map_of_update_same)

lemma game_vote1_cast:
  "CastVote game_vote1 ''a'' ''c'' 11 = (Some ErrAlreadyVoted, game_vote1)"
  "CastVote game_vote1 ''a'' ''z'' 11 = (Some ErrAlreadyVoted, game_vote1)"
  by (simp_all add: CastVote_result [OF game_vote1_facts(1,2)] game_vote1_facts(3))

theorem CastVote_checks_witness:
  "Phase game_vote = PhaseVoting \<and> CurrentRound game_vote = Some round_vote
   \<and> CastVote game_vote ''a'' ''b'' 10 = (None, game_vote1)
   \<and> CurrentRound game_vote1 = Some (round_vote\<lparr>Votes := [NewVote ''a'' ''b'' 10]\<rparr>)
   \<and> map_of (Players game_vote1) ''a'' =
        Some ((NewPlayer ''a'' ''Al'' 1)\<lparr>Role := RoleVilek, HasSubmitted := True,
                                          HasVoted := True\<rparr>)
   \<and> keys (Players game_vote1) = keys (Players game_vote)
   \<and> distinct (map VoterID (Votes round_vote))
   \<and> distinct (map VoterID (Votes (round_vote\<lparr>Votes := [NewVote ''a'' ''b'' 10]\<rparr>)))
   \<and> CastVote game_vote ''a'' ''a'' 10 = (Some ErrCannotVoteSelf, game_vote)
   \<and> CastVote game_vote ''a'' ''z'' 10 = (Some ErrInvalidTargetID, game_vote)
   \<and> Phase game_vote1 = PhaseVoting
   \<and> CastVote game_vote1 ''a'' ''c'' 11 = (Some ErrAlreadyVoted, game_vote1)"
proof -
  have ok: "CastVote game_vote ''a'' ''b'' 10 = (None, game_vote1)"
    by (simp add: game_vote1_def game_vote_cast(1))
  note T = CastVote_checks [OF game_vote_facts(1,2) ok]
  note Ts = CastVote_checks [OF game_vote_facts(1,2) game_vote_cast(2)]
  from T [THEN conjunct2, THEN conjunct2, THEN conjunct1]
  have k: "keys (Players game_vote1) = keys (Players game_vote)" by blast
  have d0: "distinct (map VoterID (Votes round_vote))" by (simp add: round_vote_votes)
  from mp [OF T [THEN conjunct2, THEN conjunct2, THEN conjunct2] d0] game_vote1_facts(2)
  have d1: "distinct (map VoterID (Votes (round_vote\<lparr>Votes := [NewVote ''a'' ''b'' 10]\<rparr>)))"
    by auto
  from Ts [THEN conjunct2, THEN conjunct1] have "game_vote = game_vote" by simp
  show ?thesis
    by (intro conjI)
       (fact game_vote_facts ok game_vote1_facts k d0 d1 game_vote_cast game_vote1_cast)+
qed

text \<open>
  The claim as first stated gives \<open>InvalidTargetId\<close> whenever the target is not a player.
  A caller who is no player votes for a target who is no player and receives
  \<open>ErrPlayerNotFound\<close>; and \<open>a\<close>, who has voted, votes again for such a target and receives
  \<open>ErrAlreadyVoted\<close>.
\<close>

theorem CastVote_error_order_counterexample:
  "Phase game_vote = PhaseVoting \<and> CurrentRound game_vote = Some round_vote
   \<and> map_of (Players game_vote) ''z'' = None
   \<and> CastVote game_vote ''x'' ''z'' 10 = (Some ErrPlayerNotFound, game_vote)
   \<and> Phase game_vote1 = PhaseVoting
   \<and> map_of (Players game_vote1) ''z'' = None
   \<and> CastVote game_vote1 ''a'' ''z'' 11 = (Some ErrAlreadyVoted, game_vote1)"
proof -
  have z: "map_of (Players game_vote) ''z'' = None"
    by (simp add: game_vote_facts players_vote_lookup)
  have z1: "map_of (Players game_vote1) ''z'' = None"
    by (simp add: game_vote1_def game_vote_cast(1) game_vote_facts players_vote_lookup
        map_of_update_other)
  show ?thesis
    by (intro conjI)
       (fact game_vote_facts z game_vote_cast game_vote1_facts z1 game_vote1_cast)+
qed

section \<open>C2: the winner of a round\<close>

lemma tally_fold:
  "fst (foldl (tally_vote players) (c, n) votes) k = c k + votes_for votes k"
proof (induction votes arbitrary: c n)
  case Nil
  then show ?case by (simp add: votes_for_def)
next
  case (Cons v votes)
  have "tally_vote players (c, n) v =
      (c(TargetID v := c (TargetID v) + 1),
       n(TargetID v := n (TargetID v) @ [case map_of players (VoterID v) of
                                             Some voter \<Rightarrow> Nickname voter | None \<Rightarrow> '''']))"
    by (simp add: tally_vote_def Let_def)
  then have "fst (foldl (tally_vote players) (c, n) (v # votes)) k =
      (c(TargetID v := c (TargetID v) + 1)) k + votes_for votes k"
    by (simp add: Cons.IH)
  then show ?case by (simp add: votes_for_def)
qed

lemma tally_counts: "fst (tally players votes) = votes_for votes"
  by (rule ext) (simp add: tally_def tally_fold)

lemma max_from_simps [simp]:
  "max_from c [] m = m"
  "max_from c (k # ks) m = max (c k) (max_from c ks m)"
  by (simp_all add: max_from_def)

lemma max_from_max: "max_from c ks (max a b) = max a (max_from c ks b)"
  by (induction ks) (simp_all add: max.left_commute)

lemma max_from_ge: "m \<le> max_from c ks m"
  by (induction ks) (simp_all add: le_max_iff_disj)



lemma max_from_attained:
  "m < max_from c ks m \<Longrightarrow> \<exists>k \<in> set ks. c k = max_from c ks m"
proof (induction ks)
  case Nil
  then show ?case by simp
next
  case (Cons k ks)
  show ?case
  proof (cases "c k = max_from c (k # ks) m")
    case True
    then show ?thesis by auto
  next
    case False
    then have eq: "max_from c (k # ks) m = max_from c ks m" by (simp add: max_def split: if_splits)
    with Cons.prems have "m < max_from c ks m" by simp
    from Cons.IH [OF this] eq show ?thesis by auto
  qed
qed

lemma max_votes_from: "max_votes c ks = max_from c ks 0"
  by (simp add: max_votes_def max_from_def)

lemma scan_fold:
  assumes "foldl (scan_player r c n) (res, mx, who) es = (res', M, W)"
  shows "M = max_from c (map fst es) mx
       \<and> W = (if mx < M
              then (case find (\<lambda>k. c k = M) (map fst es) of Some k \<Rightarrow> k | None \<Rightarrow> who)
              else who)
       \<and> length res' = length res + length es"
  using assms
proof (induction es arbitrary: res mx who)
  case Nil
  then show ?case by simp
next
  case (Cons e es)
  obtain k p where e: "e = (k, p)" by (cases e)
  let ?ks = "map fst es"
  let ?res1 = "res @ [\<lparr>res_PlayerID = k, res_Nickname = Nickname p, VoteCount = c k,
                        VotedBy = n k, IsImposter = (k = ImposterID r)\<rparr>]"
  show ?case
  proof (cases "mx < c k")
    case True
    then have step: "scan_player r c n (res, mx, who) e = (?res1, c k, k)"
      by (simp add: scan_player_def e Let_def)
    with Cons.prems have "foldl (scan_player r c n) (?res1, c k, k) es = (res', M, W)"
      by simp
    from Cons.IH [OF this] have M: "M = max_from c ?ks (c k)"
      and W: "W = (if c k < M
              then (case find (\<lambda>k. c k = M) ?ks of Some k \<Rightarrow> k | None \<Rightarrow> k)
              else k)"
      and L: "length res' = length ?res1 + length es"
      by simp_all
    from True have "max (c k) mx = c k" by simp
    with max_from_max [of c ?ks "c k" mx] M
    have M': "M = max_from c (map fst (e # es)) mx" by (simp add: e)
    from M have ge: "c k \<le> M" by (simp add: max_from_ge)
    with True have lt: "mx < M" by simp
    have W': "W = (case find (\<lambda>k. c k = M) (map fst (e # es)) of Some k \<Rightarrow> k | None \<Rightarrow> who)"
    proof (cases "c k = M")
      case True
      with W show ?thesis by (simp add: e)
    next
      case False
      with ge have "c k < M" by simp
      with M max_from_attained [of "c k" c ?ks] have "\<exists>x \<in> set ?ks. c x = M" by simp
      then have "find (\<lambda>k. c k = M) ?ks \<noteq> None" by (simp add: find_None_iff)
      with W False \<open>c k < M\<close> show ?thesis by (auto simp: e split: option.splits)
    qed
    from M' W' lt L show ?thesis by simp
  next
    case False
    then have step: "scan_player r c n (res, mx, who) e = (?res1, mx, who)"
      by (simp add: scan_player_def e Let_def)
    with Cons.prems have "foldl (scan_player r c n) (?res1, mx, who) es = (res', M, W)"
      by simp
    from Cons.IH [OF this] have M: "M = max_from c ?ks mx"
      and W: "W = (if mx < M
              then (case find (\<lambda>k. c k = M) ?ks of Some k \<Rightarrow> k | None \<Rightarrow> who)
              else who)"
      and L: "length res' = length ?res1 + length es"
      by simp_all
    from False have ck: "c k \<le> mx" by simp
    also have "mx \<le> max_from c ?ks mx" by (rule max_from_ge)
    finally have "max (c k) (max_from c ?ks mx) = max_from c ?ks mx" by simp
    with M have M': "M = max_from c (map fst (e # es)) mx" by (simp add: e)
    have W': "W = (if mx < M
              then (case find (\<lambda>k. c k = M) (map fst (e # es)) of Some k \<Rightarrow> k | None \<Rightarrow> who)
              else who)"
    proof (cases "mx < M")
      case True
      with ck have "c k \<noteq> M" by simp
      with W True show ?thesis by (simp add: e)
    next
      case False
      with W show ?thesis by simp
    qed
    from M' W' L show ?thesis by simp
  qed
qed

lemma CalculateResults_accused:
  assumes "iteration_order players order"
  shows "CalculateResults r players order now =
     (fst (CalculateResults r players order now),
      (if accused (votes_for (Votes r)) order = ImposterID r then RoleVilek else RoleImposter),
      r\<lparr>Winner := (if accused (votes_for (Votes r)) order = ImposterID r
                    then RoleVilek else RoleImposter),
        EndedAt := now\<rparr>)"
proof -
  let ?c = "votes_for (Votes r)"
  let ?n = "snd (tally players (Votes r))"
  let ?es = "range_map players order"
  obtain res M W where f: "foldl (scan_player r ?c ?n) ([], 0, '''') ?es = (res, M, W)"
    by (cases "foldl (scan_player r ?c ?n) ([], 0, '''') ?es") auto
  from assms have "set order \<subseteq> set (keys players)" by (simp add: iteration_order_def)
  then have ks: "map fst ?es = order" by (rule range_map_keys)
  from scan_fold [OF f] ks have M: "M = max_votes ?c order"
    and W: "W = (if 0 < M
              then (case find (\<lambda>k. ?c k = M) order of Some k \<Rightarrow> k | None \<Rightarrow> '''')
              else '''')"
    by (simp_all add: max_votes_from)
  from M W have "W = accused ?c order" by (simp add: accused_def)
  with f show ?thesis
    by (simp add: CalculateResults_def tally_counts Let_def)
qed






text \<open>The theorem at the voting of the four players: after three votes, without a vote,
  and with two votes against a player who is not the imposter.\<close>

lemma game_three_eq:
  "game_three = game_vote\<lparr>CurrentRound := Some round_three, Players := players_three\<rparr>"
  using phase_distinct
  by (simp add: game_three_def game_vote1_def CastVote_def GetPlayer_def AddVote_def
      game_vote_eq game_sub_eq game_roles_def players_vote_def round_vote_def round_four_def
      round_three_def players_three_def NewPlayer_def NewVote_def)

lemma game_voted_eq:
  "game_voted = game_vote\<lparr>CurrentRound := Some round_voted, Players := players_voted\<rparr>"
  using phase_distinct
  by (simp add: game_voted_def game_three_eq CastVote_def GetPlayer_def AddVote_def
      game_vote_eq game_sub_eq game_roles_def round_vote_def round_four_def
      round_three_def players_three_def round_voted_def players_voted_def NewPlayer_def
      NewVote_def)

lemma orders_four:
  "iteration_order players_vote [''a'', ''b'', ''c'', ''d'']"
  "iteration_order players_three [''a'', ''b'', ''c'', ''d'']"
  "iteration_order players_voted [''a'', ''b'', ''c'', ''d'']"
  "iteration_order players_voted [''b'', ''a'', ''c'', ''d'']"
  by (auto simp: iteration_order_def keys_def players_vote_def players_three_def
      players_voted_def)

lemma imposter_b:
  "ImposterID round_vote = ''b''" "ImposterID round_three = ''b''"
  "ImposterID round_voted = ''b''" "ImposterID round_missed = ''b''"
  by (simp_all add: round_vote_def round_three_def round_voted_def round_missed_def
      round_four_def)


lemma votes_voted:
  "votes_for (Votes round_voted) ''a'' = 2" "votes_for (Votes round_voted) ''b'' = 2"
  "votes_for (Votes round_voted) ''c'' = 0" "votes_for (Votes round_voted) ''d'' = 0"
  by (simp_all add: votes_for_def round_voted_def NewVote_def)





lemma accused_voted:
  "accused (votes_for (Votes round_voted)) [''b'', ''a'', ''c'', ''d''] = ''b''"
  "accused (votes_for (Votes round_voted)) [''a'', ''b'', ''c'', ''d''] = ''a''"
  by (simp_all add: accused_def max_votes_def votes_voted)





section \<open>C4: the state snapshot\<close>

lemma phase_state_None:
  "phase_state g st ro now = None \<longleftrightarrow>
     Phase g = PhaseSubmission \<and> (\<exists>r. CurrentRound g = Some r \<and> CurrentPlayerIdx r < 0)"
  using phase_distinct
  by (auto simp: phase_state_def GetCurrentPlayerID_def index_def CalculateResults_def Let_def
      split: option.splits if_splits)

lemma GetGameState_None:
  "GetGameState g p io ro now = None \<longleftrightarrow>
     Phase g = PhaseSubmission \<and> (\<exists>r. CurrentRound g = Some r \<and> CurrentPlayerIdx r < 0)"
  using phase_state_None [of g "base_state g io" ro now]
  by (auto simp: GetGameState_def split: option.splits)

lemma phase_state_frame:
  assumes "phase_state g st ro now = Some (st', g')"
  shows "(Phase g \<noteq> PhaseResults \<or> CurrentRound g = None \<longrightarrow> g' = g)"
    and "g'\<lparr>CurrentRound := CurrentRound g\<rparr> = g"
    and "rel_option (\<lambda>r r'. r'\<lparr>Winner := Winner r, EndedAt := EndedAt r\<rparr> = r)
           (CurrentRound g) (CurrentRound g')"
    and "rel_option (\<lambda>r r'. SecretWord r' = SecretWord r) (CurrentRound g) (CurrentRound g')"
  using assms phase_distinct
  by (auto simp: phase_state_def CalculateResults_def Let_def option.rel_refl
      split: option.splits if_splits)

lemma role_state_fields:
  "st_role (role_state g p st) = (case own_role g p of None \<Rightarrow> st_role st | Some ro \<Rightarrow> Some ro)"
  "st_results (role_state g p st) = st_results st"
  "st_winner (role_state g p st) = st_winner st"
  "st_imposterId (role_state g p st) = st_imposterId st"
  "st_secretWord (role_state g p st) =
     (case (map_of (Players g) p, CurrentRound g) of
        (Some player, Some r) \<Rightarrow>
          if Role player = RoleVilek then Some (SecretWord r) else st_secretWord st
      | _ \<Rightarrow> st_secretWord st)"
  by (auto simp: role_state_def own_role_def GetPlayer_def Let_def RoleVilek_def
      split: option.splits)

lemma phase_state_fields:
  assumes "phase_state g (base_state g io) ro now = Some (st, g')"
  shows "st_role st = None"
    and "Phase g \<noteq> PhaseResults \<or> CurrentRound g = None \<longrightarrow>
           st_results st = None \<and> st_winner st = None \<and> st_imposterId st = None
           \<and> st_secretWord st = None"
    and "Phase g = PhaseResults \<and> CurrentRound g = Some r \<longrightarrow>
           st_results st = Some (fst (CalculateResults r (Players g) ro now))
           \<and> st_imposterId st = Some (ImposterID r) \<and> st_secretWord st = Some (SecretWord r)"
  using assms phase_distinct
  by (auto simp: phase_state_def base_state_def CalculateResults_def Let_def
      split: option.splits if_splits)

lemma GetGameState_Some:
  assumes "GetGameState g p io ro now = Some (state, g')"
  obtains st where "phase_state g (base_state g io) ro now = Some (st, g')"
    and "state = role_state g' p st"
  using assms by (auto simp: GetGameState_def split: option.splits)

lemma GetGameState_fields:
  assumes "GetGameState g p io ro now = Some (state, g')"
  shows "(Phase g \<noteq> PhaseResults \<or> CurrentRound g = None \<longrightarrow> g' = g)"
    and "g'\<lparr>CurrentRound := CurrentRound g\<rparr> = g"
    and "rel_option (\<lambda>r r'. r'\<lparr>Winner := Winner r, EndedAt := EndedAt r\<rparr> = r)
           (CurrentRound g) (CurrentRound g')"
    and "st_role state = own_role g p"
    and "Phase g \<noteq> PhaseResults \<or> CurrentRound g = None \<longrightarrow>
           st_results state = None \<and> st_winner state = None \<and> st_imposterId state = None
           \<and> st_secretWord state =
               (case (map_of (Players g) p, CurrentRound g) of
                  (Some player, Some r) \<Rightarrow>
                    if Role player = RoleVilek then Some (SecretWord r) else None
                | _ \<Rightarrow> None)"
    and "Phase g = PhaseResults \<and> CurrentRound g = Some r \<longrightarrow>
           st_results state = Some (fst (CalculateResults r (Players g) ro now))
           \<and> st_imposterId state = Some (ImposterID r)
           \<and> st_secretWord state = Some (SecretWord r)"
proof -
  from assms obtain st where ps: "phase_state g (base_state g io) ro now = Some (st, g')"
    and st: "state = role_state g' p st" by (rule GetGameState_Some)
  note fr = phase_state_frame [OF ps]
  note fl = phase_state_fields [OF ps]
  have pl: "Players g' = Players g"
    using arg_cong [OF fr(2), of Players] by simp
  have own: "own_role g' p = own_role g p" by (simp add: own_role_def pl)
  show "Phase g \<noteq> PhaseResults \<or> CurrentRound g = None \<longrightarrow> g' = g" by (rule fr(1))
  show "g'\<lparr>CurrentRound := CurrentRound g\<rparr> = g" by (rule fr(2))
  show "rel_option (\<lambda>r r'. r'\<lparr>Winner := Winner r, EndedAt := EndedAt r\<rparr> = r)
           (CurrentRound g) (CurrentRound g')" by (rule fr(3))
  show "st_role state = own_role g p"
    by (simp add: st role_state_fields(1) own fl(1) split: option.splits)
  show "Phase g \<noteq> PhaseResults \<or> CurrentRound g = None \<longrightarrow>
           st_results state = None \<and> st_winner state = None \<and> st_imposterId state = None
           \<and> st_secretWord state =
               (case (map_of (Players g) p, CurrentRound g) of
                  (Some player, Some r) \<Rightarrow>
                    if Role player = RoleVilek then Some (SecretWord r) else None
                | _ \<Rightarrow> None)"
  proof
    assume a: "Phase g \<noteq> PhaseResults \<or> CurrentRound g = None"
    with fr(1) have "g' = g" by simp
    with fl(2) a show "st_results state = None \<and> st_winner state = None
           \<and> st_imposterId state = None
           \<and> st_secretWord state =
               (case (map_of (Players g) p, CurrentRound g) of
                  (Some player, Some r) \<Rightarrow>
                    if Role player = RoleVilek then Some (SecretWord r) else None
                | _ \<Rightarrow> None)"
      by (simp add: st role_state_fields split: option.splits)
  qed
  show "Phase g = PhaseResults \<and> CurrentRound g = Some r \<longrightarrow>
           st_results state = Some (fst (CalculateResults r (Players g) ro now))
           \<and> st_imposterId state = Some (ImposterID r)
           \<and> st_secretWord state = Some (SecretWord r)"
  proof
    assume a: "Phase g = PhaseResults \<and> CurrentRound g = Some r"
    with fr(4) obtain r' where r': "CurrentRound g' = Some r'" "SecretWord r' = SecretWord r"
      by (auto simp: option_rel_Some1)
    from fl(3) a r' show "st_results state = Some (fst (CalculateResults r (Players g) ro now))
           \<and> st_imposterId state = Some (ImposterID r)
           \<and> st_secretWord state = Some (SecretWord r)"
      by (simp add: st role_state_fields pl split: option.splits)
  qed
qed

lemma same_lookup:
  assumes "list_all2 (\<lambda>e1 e2. fst e1 = fst e2 \<and> (snd e1)\<lparr>Role := Role (snd e2)\<rparr> = snd e2) m1 m2"
  shows "map_option ToInfo (map_of m2 k) = map_option ToInfo (map_of m1 k)"
  using assms
proof (induction rule: list_all2_induct)
  case Nil
  show ?case by simp
next
  case (Cons e1 m1 e2 m2)
  from Cons.hyps(1) have k: "fst e2 = fst e1" and u: "snd e2 = (snd e1)\<lparr>Role := Role (snd e2)\<rparr>"
    by simp_all
  have "ToInfo (snd e2) = ToInfo ((snd e1)\<lparr>Role := Role (snd e2)\<rparr>)" using u by simp
  hence t: "ToInfo (snd e2) = ToInfo (snd e1)" by (simp add: ToInfo_def)
  show ?case
    using Cons.IH k t by (cases e1; cases e2) auto
qed

lemma same_info_list:
  assumes "\<And>k. map_option ToInfo (map_of m2 k) = map_option ToInfo (map_of m1 k)"
  shows "map (\<lambda>(_, p). ToInfo p) (range_map m2 order) = map (\<lambda>(_, p). ToInfo p) (range_map m1 order)"
proof (induction order)
  case Nil
  show ?case by (simp add: range_map_def map_filter_simps)
next
  case (Cons k ks)
  from Cons have ih: "map (\<lambda>(_, p). ToInfo p) (List.map_filter (\<lambda>k. map_option (Pair k) (map_of m2 k)) ks)
      = map (\<lambda>(_, p). ToInfo p) (List.map_filter (\<lambda>k. map_option (Pair k) (map_of m1 k)) ks)"
    by (simp add: range_map_def)
  show ?case
    using assms [of k] ih
    by (cases "map_of m1 k"; cases "map_of m2 k") (simp_all add: range_map_def map_filter_simps)
qed

lemma phase_state_same:
  assumes "Phase g \<noteq> PhaseResults" and "Phase g2 = Phase g"
    and "rel_option (\<lambda>r1 r2. Submissions r2 = Submissions r1
           \<and> GetCurrentPlayerID r2 = GetCurrentPlayerID r1) (CurrentRound g) (CurrentRound g2)"
    and "GetVoteProgress g2 = GetVoteProgress g"
  shows "map_option fst (phase_state g2 st ro now) = map_option fst (phase_state g st ro now)"
proof (cases "CurrentRound g")
  case None
  with assms(3) have "CurrentRound g2 = None" by simp
  with None assms(1,2,4) show ?thesis by (simp add: phase_state_def)
next
  case (Some r)
  with assms(3) obtain r2 where "CurrentRound g2 = Some r2" "Submissions r2 = Submissions r"
    "GetCurrentPlayerID r2 = GetCurrentPlayerID r"
    by (auto simp: option_rel_Some1)
  with Some assms(1,2,4) show ?thesis
    by (cases "GetCurrentPlayerID r") (simp_all add: phase_state_def)
qed

lemma role_state_same:
  assumes "map_option Role (map_of (Players g) p) = map_option Role (map_of (Players g2) p)"
    and "rel_option (\<lambda>r1 r2. SecretWord r2 = SecretWord r1) (CurrentRound g) (CurrentRound g2)"
  shows "role_state g2 p st = role_state g p st"
proof -
  have w: "map_option SecretWord (CurrentRound g2) = map_option SecretWord (CurrentRound g)"
    using assms(2) by (cases "CurrentRound g"; cases "CurrentRound g2") simp_all
  have r: "role_state h p st =
     (case map_option Role (map_of (Players h) p) of
        None \<Rightarrow> st
      | Some ro \<Rightarrow>
          if ro \<noteq> [] then
            (case map_option SecretWord (CurrentRound h) of
               None \<Rightarrow> st\<lparr>st_role := Some ro\<rparr>
             | Some w \<Rightarrow> if ro = RoleVilek then st\<lparr>st_role := Some ro, st_secretWord := Some w\<rparr>
                         else st\<lparr>st_role := Some ro\<rparr>)
          else st)" for h
    by (cases "map_of (Players h) p"; cases "CurrentRound h")
      (simp_all add: role_state_def GetPlayer_def Let_def)
  show ?thesis by (simp only: r w assms(1))
qed

lemma same_but_roles_state:
  assumes ph: "Phase g \<noteq> PhaseResults" and s: "same_but_roles p g g2"
  shows "map_option fst (GetGameState g2 p io ro now) = map_option fst (GetGameState g p io ro now)"
proof -
  from s have l: "list_all2 (\<lambda>e1 e2. fst e1 = fst e2 \<and> (snd e1)\<lparr>Role := Role (snd e2)\<rparr> = snd e2)
       (Players g) (Players g2)"
    and ro: "map_option Role (map_of (Players g) p) = map_option Role (map_of (Players g2) p)"
    and cr: "rel_option (\<lambda>r1 r2. r1\<lparr>ImposterID := ImposterID r2\<rparr> = r2) (CurrentRound g) (CurrentRound g2)"
    and e: "g\<lparr>Players := Players g2, CurrentRound := CurrentRound g2\<rparr> = g2"
    by (simp_all add: same_but_roles_def)
  have f: "Phase g2 = Phase g" "HostID g2 = HostID g" "Settings g2 = Settings g"
    using arg_cong [OF e, of Phase] arg_cong [OF e, of HostID] arg_cong [OF e, of Settings]
    by simp_all
  have len: "length (Players g2) = length (Players g)"
    using list_all2_lengthD [OF l] by simp
  have info: "GetPlayerInfoList g2 io = GetPlayerInfoList g io"
    unfolding GetPlayerInfoList_def by (rule same_info_list) (rule same_lookup [OF l])
  have base: "base_state g2 io = base_state g io"
    by (simp add: base_state_def info f CanStart_def len)
  have rf: "r1\<lparr>ImposterID := ImposterID r2\<rparr> = r2 \<Longrightarrow>
      Submissions r2 = Submissions r1 \<and> Votes r2 = Votes r1 \<and> SecretWord r2 = SecretWord r1
      \<and> GetCurrentPlayerID r2 = GetCurrentPlayerID r1" for r1 r2 :: Round
  proof -
    assume rr: "r1\<lparr>ImposterID := ImposterID r2\<rparr> = r2"
    show ?thesis
      using arg_cong [OF rr, of Submissions] arg_cong [OF rr, of Votes]
        arg_cong [OF rr, of SecretWord] arg_cong [OF rr, of PlayerOrder]
        arg_cong [OF rr, of CurrentPlayerIdx]
      by (simp add: GetCurrentPlayerID_def)
  qed
  have c1: "rel_option (\<lambda>r1 r2. Submissions r2 = Submissions r1
           \<and> GetCurrentPlayerID r2 = GetCurrentPlayerID r1) (CurrentRound g) (CurrentRound g2)"
    by (rule option.rel_mono_strong [OF cr]) (drule rf, simp)
  have c2: "rel_option (\<lambda>r1 r2. SecretWord r2 = SecretWord r1) (CurrentRound g) (CurrentRound g2)"
    by (rule option.rel_mono_strong [OF cr]) (drule rf, simp)
  have c3: "rel_option (\<lambda>r1 r2. Votes r2 = Votes r1) (CurrentRound g) (CurrentRound g2)"
    by (rule option.rel_mono_strong [OF cr]) (drule rf, simp)
  have vp: "GetVoteProgress g2 = GetVoteProgress g"
    using c3 by (cases "CurrentRound g"; cases "CurrentRound g2")
      (simp_all add: GetVoteProgress_def GetVotedCount_def len)
  note ps = phase_state_same [OF ph f(1) c1 vp, of "base_state g io" ro now]
  note fr = phase_state_frame(1)
  show ?thesis
  proof (cases "phase_state g (base_state g io) ro now")
    case None
    with ps have "phase_state g2 (base_state g io) ro now = None" by simp
    with None show ?thesis by (simp add: GetGameState_def base)
  next
    case (Some a)
    obtain st ga where a: "a = (st, ga)" by (cases a)
    from fr [of g "base_state g io" ro now st ga] Some a ph have ga: "ga = g" by simp
    from ps Some a obtain gb where b: "phase_state g2 (base_state g io) ro now = Some (st, gb)"
      by (cases "phase_state g2 (base_state g io) ro now") auto
    from fr [of g2 "base_state g io" ro now st gb] b ph f(1) have gb: "gb = g2" by simp
    show ?thesis
      by (simp add: GetGameState_def base Some a b ga gb role_state_same [OF ro c2])
  qed
qed

text \<open>
  C4 (as amended).  \<open>GetGameState\<close> returns a snapshot unless the game is in the
  SUBMISSION phase with a round whose turn index is negative, where it panics.  When it
  returns, the players, the phase, the host and the settings of the game are as before, and
  the current round is as before in every field other than \<open>Winner\<close> and \<open>EndedAt\<close>;
  outside the RESULTS phase, and in it when there is no current round, the whole game is as
  before.  The \<open>role\<close> entry of the snapshot is the caller's own role, and it is absent
  when the caller is not a player of the game or has no role.  Outside the RESULTS phase,
  and in it when there is no current round, the snapshot has no results, no winner and no
  imposter id, it has the secret word only for a caller whose role is Vilek while there is
  a current round, and it is the same snapshot in every game that differs only in the roles
  of the other players.  In the RESULTS phase with a current round the snapshot carries the
  results, the imposter id and the secret word for every caller.
\<close>

theorem GetGameState_projection:
  "(GetGameState g playerID infoOrder resOrder now = None \<longleftrightarrow>
      Phase g = PhaseSubmission \<and> (\<exists>r. CurrentRound g = Some r \<and> CurrentPlayerIdx r < 0))
   \<and> (GetGameState g playerID infoOrder resOrder now = Some (state, g') \<longrightarrow>
        (Phase g \<noteq> PhaseResults \<or> CurrentRound g = None \<longrightarrow> g' = g)
        \<and> Players g' = Players g \<and> Phase g' = Phase g \<and> HostID g' = HostID g
        \<and> Settings g' = Settings g
        \<and> rel_option (\<lambda>r r'. r'\<lparr>Winner := Winner r, EndedAt := EndedAt r\<rparr> = r)
             (CurrentRound g) (CurrentRound g')
        \<and> st_role state = own_role g playerID
        \<and> (Phase g \<noteq> PhaseResults \<or> CurrentRound g = None \<longrightarrow>
             st_results state = None \<and> st_winner state = None \<and> st_imposterId state = None
             \<and> st_secretWord state =
                 (case (map_of (Players g) playerID, CurrentRound g) of
                    (Some player, Some r) \<Rightarrow>
                      if Role player = RoleVilek then Some (SecretWord r) else None
                  | _ \<Rightarrow> None))
        \<and> (Phase g = PhaseResults \<and> CurrentRound g = Some r \<longrightarrow>
             st_results state = Some (fst (CalculateResults r (Players g) resOrder now))
             \<and> st_imposterId state = Some (ImposterID r)
             \<and> st_secretWord state = Some (SecretWord r)))
   \<and> (Phase g \<noteq> PhaseResults \<and> same_but_roles playerID g g2 \<longrightarrow>
        map_option fst (GetGameState g2 playerID infoOrder resOrder now) =
        map_option fst (GetGameState g playerID infoOrder resOrder now))"
proof (intro conjI impI)
  show "GetGameState g playerID infoOrder resOrder now = None \<longleftrightarrow>
      Phase g = PhaseSubmission \<and> (\<exists>r. CurrentRound g = Some r \<and> CurrentPlayerIdx r < 0)"
    by (rule GetGameState_None)
next
  assume "Phase g \<noteq> PhaseResults \<and> same_but_roles playerID g g2"
  thus "map_option fst (GetGameState g2 playerID infoOrder resOrder now) =
        map_option fst (GetGameState g playerID infoOrder resOrder now)"
    using same_but_roles_state by blast
next
  assume a: "GetGameState g playerID infoOrder resOrder now = Some (state, g')"
  note F = GetGameState_fields [OF a]
  show "Players g' = Players g" using arg_cong [OF F(2), of Players] by simp
  show "Phase g' = Phase g" using arg_cong [OF F(2), of Phase] by simp
  show "HostID g' = HostID g" using arg_cong [OF F(2), of HostID] by simp
  show "Settings g' = Settings g" using arg_cong [OF F(2), of Settings] by simp
  show "rel_option (\<lambda>r r'. r'\<lparr>Winner := Winner r, EndedAt := EndedAt r\<rparr> = r)
             (CurrentRound g) (CurrentRound g')" by (rule F(3))
  show "st_role state = own_role g playerID" by (rule F(4))
  {
    assume b: "Phase g \<noteq> PhaseResults \<or> CurrentRound g = None"
    from F(1) b show "g' = g" by simp
    from F(5) b show "st_results state = None" "st_winner state = None"
      "st_imposterId state = None"
      "st_secretWord state =
                 (case (map_of (Players g) playerID, CurrentRound g) of
                    (Some player, Some r) \<Rightarrow>
                      if Role player = RoleVilek then Some (SecretWord r) else None
                  | _ \<Rightarrow> None)"
      by blast+
  }
  {
    assume c: "Phase g = PhaseResults \<and> CurrentRound g = Some r"
    from F(6) [of r] c show "st_results state = Some (fst (CalculateResults r (Players g) resOrder now))"
      "st_imposterId state = Some (ImposterID r)" "st_secretWord state = Some (SecretWord r)"
      by blast+
  }
qed

text \<open>
  The theorem at the game of four players: at the turn of \<open>b\<close>, the snapshot of the Vilek \<open>a\<close>
  leaves the game as it is, carries the role Vilek and the secret word and no imposter id,
  and is the same had \<open>c\<close> been the imposter; after the round has ended, the snapshot of the
  imposter \<open>b\<close> carries the role Imposter and the secret word.
\<close>

lemma game_voted_facts:
  "Phase game_voted = PhaseVoting" "CurrentRound game_voted = Some round_voted"
  "Players game_voted = players_voted"
  by (simp_all add: game_voted_eq game_vote_facts)

lemma results_rounds:
  "CalculateResults round_voted players_voted [''b'', ''a'', ''c'', ''d''] 20 =
     (fst (CalculateResults round_voted players_voted [''b'', ''a'', ''c'', ''d''] 20),
      RoleVilek, round_voted\<lparr>Winner := RoleVilek, EndedAt := 20\<rparr>)"
  "CalculateResults (round_voted\<lparr>Winner := RoleVilek, EndedAt := 20\<rparr>) players_voted
       [''a'', ''b'', ''c'', ''d''] 30 =
     (fst (CalculateResults (round_voted\<lparr>Winner := RoleVilek, EndedAt := 20\<rparr>) players_voted
       [''a'', ''b'', ''c'', ''d''] 30),
      RoleImposter, round_voted\<lparr>Winner := RoleImposter, EndedAt := 30\<rparr>)"
  using CalculateResults_accused [OF orders_four(4), of round_voted 20]
    CalculateResults_accused [OF orders_four(3),
      of "round_voted\<lparr>Winner := RoleVilek, EndedAt := 20\<rparr>" 30]
  by (simp_all add: accused_voted imposter_b)

lemma game_results_facts:
  "Phase game_results = PhaseResults"
  "CurrentRound game_results = Some (round_voted\<lparr>Winner := RoleVilek, EndedAt := 20\<rparr>)"
  "Players game_results = players_voted"
proof -
  define res where "res = fst (CalculateResults round_voted players_voted [''b'', ''a'', ''c'', ''d''] 20)"
  have c: "CalculateResults round_voted players_voted [''b'', ''a'', ''c'', ''d''] 20 =
     (res, RoleVilek, round_voted\<lparr>Winner := RoleVilek, EndedAt := 20\<rparr>)"
    unfolding res_def by (rule results_rounds(1))
  have e: "snd (EndRound game_voted [''b'', ''a'', ''c'', ''d''] 20) =
     game_voted\<lparr>CurrentRound := Some (round_voted\<lparr>Winner := RoleVilek, EndedAt := 20\<rparr>),
       RoundHistory := RoundHistory game_voted @ [round_voted\<lparr>Winner := RoleVilek, EndedAt := 20\<rparr>],
       Phase := PhaseResults\<rparr>"
    by (simp add: EndRound_def game_voted_facts c)
  show "Phase game_results = PhaseResults"
    "CurrentRound game_results = Some (round_voted\<lparr>Winner := RoleVilek, EndedAt := 20\<rparr>)"
    "Players game_results = players_voted"
    by (simp_all add: game_results_def e game_voted_facts)
qed

lemma game_sub_c_same: "same_but_roles ''a'' game_sub game_sub_c"
  by (simp add: same_but_roles_def game_sub_c_def game_sub_facts players_roles_def
      players_roles_c_def NewPlayer_def)

lemma own_role_examples:
  "own_role game_sub ''a'' = Some RoleVilek"
  "own_role game_results ''b'' = Some RoleImposter"
  "map_option Role (map_of (Players game_results) ''b'') = Some RoleImposter"
  "map_of (Players game_sub) ''a'' = Some ((NewPlayer ''a'' ''Al'' 1)\<lparr>Role := RoleVilek\<rparr>)"
  by (simp_all add: own_role_def game_sub_facts game_results_facts players_roles_def
      players_voted_def NewPlayer_def RoleVilek_def RoleImposter_def)

theorem GetGameState_projection_witness:
  "Phase game_sub \<noteq> PhaseResults
   \<and> same_but_roles ''a'' game_sub game_sub_c
   \<and> map_option snd (GetGameState game_sub ''a'' [''a'', ''b'', ''c'', ''d'']
        [''a'', ''b'', ''c'', ''d''] 30) = Some game_sub
   \<and> map_option (st_role \<circ> fst) (GetGameState game_sub ''a'' [''a'', ''b'', ''c'', ''d'']
        [''a'', ''b'', ''c'', ''d''] 30) = Some (Some RoleVilek)
   \<and> map_option (st_secretWord \<circ> fst) (GetGameState game_sub ''a'' [''a'', ''b'', ''c'', ''d'']
        [''a'', ''b'', ''c'', ''d''] 30) = Some (Some ''neon'')
   \<and> map_option (st_imposterId \<circ> fst) (GetGameState game_sub ''a'' [''a'', ''b'', ''c'', ''d'']
        [''a'', ''b'', ''c'', ''d''] 30) = Some None
   \<and> map_option fst (GetGameState game_sub_c ''a'' [''a'', ''b'', ''c'', ''d'']
        [''a'', ''b'', ''c'', ''d''] 30) =
     map_option fst (GetGameState game_sub ''a'' [''a'', ''b'', ''c'', ''d'']
        [''a'', ''b'', ''c'', ''d''] 30)
   \<and> Phase game_results = PhaseResults
   \<and> CurrentRound game_results = Some (round_voted\<lparr>Winner := RoleVilek, EndedAt := 20\<rparr>)
   \<and> map_option (Players \<circ> snd) (GetGameState game_results ''b'' [''a'', ''b'', ''c'', ''d'']
        [''a'', ''b'', ''c'', ''d''] 30) = Some players_voted
   \<and> map_option (st_role \<circ> fst) (GetGameState game_results ''b'' [''a'', ''b'', ''c'', ''d'']
        [''a'', ''b'', ''c'', ''d''] 30) = Some (Some RoleImposter)
   \<and> map_option (st_secretWord \<circ> fst) (GetGameState game_results ''b'' [''a'', ''b'', ''c'', ''d'']
        [''a'', ''b'', ''c'', ''d''] 30) = Some (Some ''neon'')"
proof -
  let ?o = "[''a'', ''b'', ''c'', ''d'']"
  let ?r = "round_voted\<lparr>Winner := RoleVilek, EndedAt := 20\<rparr>"
  let ?S = "GetGameState game_sub ''a'' ?o ?o 30"
  let ?R = "GetGameState game_results ''b'' ?o ?o 30"
  have ph: "Phase game_sub \<noteq> PhaseResults"
    using phase_distinct by (simp add: game_sub_facts)
  have phr: "Phase game_results \<noteq> PhaseSubmission"
    using phase_distinct by (simp add: game_results_facts)
  have idx: "\<not> (\<exists>r. CurrentRound game_sub = Some r \<and> CurrentPlayerIdx r < 0)"
    by (simp add: game_sub_facts round_four_def)
  have "?S \<noteq> None"
    using GetGameState_projection [of game_sub "''a''" ?o ?o 30, THEN conjunct1] idx by blast
  then obtain ss gs where S: "?S = Some (ss, gs)" by (cases ?S) auto
  have "?R \<noteq> None"
    using GetGameState_projection [of game_results "''b''" ?o ?o 30, THEN conjunct1] phr by blast
  then obtain sr gr where R: "?R = Some (sr, gr)" by (cases ?R) auto
  note TS = mp [OF GetGameState_projection [of game_sub "''a''" ?o ?o 30 ss gs round_four game_sub_c,
      THEN conjunct2, THEN conjunct1] S]
  note TN = mp [OF GetGameState_projection [of game_sub "''a''" ?o ?o 30 ss gs round_four game_sub_c,
      THEN conjunct2, THEN conjunct2] conjI [OF ph game_sub_c_same]]
  note TR = mp [OF GetGameState_projection [of game_results "''b''" ?o ?o 30 sr gr ?r game_sub_c,
      THEN conjunct2, THEN conjunct1] R]
  have nr: "Phase game_sub \<noteq> PhaseResults \<or> CurrentRound game_sub = None" using ph by simp
  have f1: "map_option snd ?S = Some game_sub"
    using mp [OF TS [THEN conjunct1] nr] by (simp add: S)
  have f2: "map_option (st_role \<circ> fst) ?S = Some (Some RoleVilek)"
    using TS [THEN conjunct2, THEN conjunct2, THEN conjunct2, THEN conjunct2, THEN conjunct2,
      THEN conjunct2, THEN conjunct1]
    by (simp add: S own_role_examples)
  note hid = mp [OF TS [THEN conjunct2, THEN conjunct2, THEN conjunct2, THEN conjunct2,
      THEN conjunct2, THEN conjunct2, THEN conjunct2, THEN conjunct1] nr]
  have f3: "map_option (st_secretWord \<circ> fst) ?S = Some (Some ''neon'')"
    using hid [THEN conjunct2, THEN conjunct2, THEN conjunct2]
    by (simp add: S own_role_examples(4) game_sub_facts(2) round_four_def)
  have f4: "map_option (st_imposterId \<circ> fst) ?S = Some None"
    using hid [THEN conjunct2, THEN conjunct2, THEN conjunct1] by (simp add: S)
  have f5: "map_option (Players \<circ> snd) ?R = Some players_voted"
    using TR [THEN conjunct2, THEN conjunct1] by (simp add: R game_results_facts)
  have f6: "map_option (st_role \<circ> fst) ?R = Some (Some RoleImposter)"
    using TR [THEN conjunct2, THEN conjunct2, THEN conjunct2, THEN conjunct2, THEN conjunct2,
      THEN conjunct2, THEN conjunct1]
    by (simp add: R own_role_examples)
  note res = mp [OF TR [THEN conjunct2, THEN conjunct2, THEN conjunct2, THEN conjunct2,
      THEN conjunct2, THEN conjunct2, THEN conjunct2, THEN conjunct2]
      conjI [OF game_results_facts(1,2)]]
  have f7: "map_option (st_secretWord \<circ> fst) ?R = Some (Some ''neon'')"
    using res [THEN conjunct2, THEN conjunct2]
    by (simp add: R round_voted_def round_vote_def round_four_def)
  show ?thesis
    by (intro conjI) (fact ph game_sub_c_same f1 f2 f3 f4 TN game_results_facts f5 f6 f7)+
qed

text \<open>
  The claim as first stated has the game, the round and the players unchanged by every
  call, and no role of another player in any snapshot.  In the game of four players after
  \<open>EndRound\<close> at time 20, the round has winner Vilek and ended at 20.  A call by \<open>a\<close> at
  time 30 in which the runtime visits \<open>a\<close> first leaves the round with winner Imposter and
  ended at 30; and the snapshot of \<open>a\<close>, whose role is Vilek, names \<open>b\<close> as the imposter.
\<close>

theorem GetGameState_writes_round_counterexample:
  "Phase game_results = PhaseResults
   \<and> CurrentRound game_results = Some (round_voted\<lparr>Winner := RoleVilek, EndedAt := 20\<rparr>)
   \<and> map_option (CurrentRound \<circ> snd) (GetGameState game_results ''a'' [''a'', ''b'', ''c'', ''d'']
        [''a'', ''b'', ''c'', ''d''] 30) =
       Some (Some (round_voted\<lparr>Winner := RoleImposter, EndedAt := 30\<rparr>))
   \<and> round_voted\<lparr>Winner := RoleImposter, EndedAt := 30\<rparr> \<noteq>
       round_voted\<lparr>Winner := RoleVilek, EndedAt := 20\<rparr>
   \<and> map_option Role (map_of (Players game_results) ''b'') = Some RoleImposter
   \<and> map_option (st_role \<circ> fst) (GetGameState game_results ''a'' [''a'', ''b'', ''c'', ''d'']
        [''a'', ''b'', ''c'', ''d''] 30) = Some (Some RoleVilek)
   \<and> map_option (st_imposterId \<circ> fst) (GetGameState game_results ''a'' [''a'', ''b'', ''c'', ''d'']
        [''a'', ''b'', ''c'', ''d''] 30) = Some (Some ''b'')"
proof -
  let ?o = "[''a'', ''b'', ''c'', ''d'']"
  let ?r = "round_voted\<lparr>Winner := RoleVilek, EndedAt := 20\<rparr>"
  let ?r' = "round_voted\<lparr>Winner := RoleImposter, EndedAt := 30\<rparr>"
  define res where "res = fst (CalculateResults ?r players_voted ?o 30)"
  have c: "CalculateResults ?r players_voted ?o 30 = (res, RoleImposter, ?r')"
    unfolding res_def by (rule results_rounds(2))
  have sw: "SecretWord round_voted = ''neon''"
    by (simp add: round_voted_def round_vote_def round_four_def)
  have ps: "phase_state game_results st ?o 30 =
      Some (st\<lparr>st_results := Some res, st_winner := Some RoleImposter,
               st_imposterId := Some ''b'', st_secretWord := Some ''neon''\<rparr>,
            game_results\<lparr>CurrentRound := Some ?r'\<rparr>)" for st
    using phase_distinct
    by (simp add: phase_state_def game_results_facts c imposter_b sw)
  have g: "GetGameState game_results ''a'' ?o ?o 30 =
      Some (role_state (game_results\<lparr>CurrentRound := Some ?r'\<rparr>) ''a''
              ((base_state game_results ?o)\<lparr>st_results := Some res,
               st_winner := Some RoleImposter, st_imposterId := Some ''b'',
               st_secretWord := Some ''neon''\<rparr>),
            game_results\<lparr>CurrentRound := Some ?r'\<rparr>)"
    by (simp add: GetGameState_def ps)
  have ne: "?r' \<noteq> ?r"
  proof
    assume "?r' = ?r"
    from arg_cong [OF this, of EndedAt] show False by simp
  qed
  have own: "own_role (game_results\<lparr>CurrentRound := Some ?r'\<rparr>) ''a'' = Some RoleVilek"
    by (simp add: own_role_def game_results_facts players_voted_def NewPlayer_def RoleVilek_def)
  have f1: "map_option (CurrentRound \<circ> snd) (GetGameState game_results ''a'' ?o ?o 30) =
      Some (Some ?r')"
    by (simp add: g)
  have f2: "map_option (st_role \<circ> fst) (GetGameState game_results ''a'' ?o ?o 30) =
      Some (Some RoleVilek)"
    by (simp add: g role_state_fields(1) own)
  have f3: "map_option (st_imposterId \<circ> fst) (GetGameState game_results ''a'' ?o ?o 30) =
      Some (Some ''b'')"
    by (simp add: g role_state_fields(4))
  show ?thesis
    by (intro conjI) (fact game_results_facts f1 ne own_role_examples(3) f2 f3)+
qed

end
